theory Spec2Isabelle
  imports Complex_Main "HOL-Library.Word" "HOL-Library.AList" "HOL-Library.Log_Nat"
begin

unbundle bit_operations_syntax

text \<open>
  A shallow embedding of the request pipeline of the knoway gateway: the error taxonomy,
  model access control, the two load balancers, route matching with the route registry
  and the fallback loop, the local token bucket, the chat completion stream, and the
  mutation of request bodies. The first part holds the definitions, each translated from
  the Go function of the same name; the second part holds the results.
\<close>

section \<open>Error taxonomy (pkg/object/errors.go)\<close>

text \<open>
  \<^verbatim>\<open>LLMErrorCode\<close> is a Go string type; the constants keep their values.
  \<^verbatim>\<open>BaseError.Code\<close> is a pointer, hence an option. The HTTP status constants are
  those of Go's net/http.
\<close>

type_synonym LLMErrorCode = string

definition LLMErrorCodeModelNotFoundOrNotAccessible :: LLMErrorCode where
  "LLMErrorCodeModelNotFoundOrNotAccessible = ''model_not_found''"
definition LLMErrorCodeModelAccessDenied :: LLMErrorCode where
  "LLMErrorCodeModelAccessDenied = ''model_access_denied''"
definition LLMErrorCodeRateLimitExceeded :: LLMErrorCode where
  "LLMErrorCodeRateLimitExceeded = ''model_rate_limit_exceeded''"
definition LLMErrorCodeInsufficientQuota :: LLMErrorCode where
  "LLMErrorCodeInsufficientQuota = ''insufficient_quota''"
definition LLMErrorCodeMissingAPIKey :: LLMErrorCode where
  "LLMErrorCodeMissingAPIKey = ''missing_api_key''"
definition LLMErrorCodeIncorrectAPIKey :: LLMErrorCode where
  "LLMErrorCodeIncorrectAPIKey = ''incorrect_api_key''"
definition LLMErrorCodeMissingModel :: LLMErrorCode where
  "LLMErrorCodeMissingModel = ''missing_model''"
definition LLMErrorCodeServiceUnavailable :: LLMErrorCode where
  "LLMErrorCodeServiceUnavailable = ''service_unavailable''"
definition LLMErrorCodeInternalError :: LLMErrorCode where
  "LLMErrorCodeInternalError = ''internal_error''"
definition LLMErrorCodeBadGateway :: LLMErrorCode where
  "LLMErrorCodeBadGateway = ''bad_gateway''"

definition StatusBadRequest :: int where "StatusBadRequest = 400"
definition StatusUnauthorized :: int where "StatusUnauthorized = 401"
definition StatusPaymentRequired :: int where "StatusPaymentRequired = 402"
definition StatusForbidden :: int where "StatusForbidden = 403"
definition StatusNotFound :: int where "StatusNotFound = 404"
definition StatusTooManyRequests :: int where "StatusTooManyRequests = 429"
definition StatusInternalServerError :: int where "StatusInternalServerError = 500"
definition StatusBadGateway :: int where "StatusBadGateway = 502"
definition StatusServiceUnavailable :: int where "StatusServiceUnavailable = 503"

record BaseError =
  Code :: "LLMErrorCode option"
  Message :: string

record BaseLLMError =
  Status :: int
  ErrorBody :: BaseError

text \<open>\<^verbatim>\<open>GetCode\<close>: \<^verbatim>\<open>lo.FromPtrOr(e.ErrorBody.Code, "")\<close>.\<close>

definition GetCode :: "BaseLLMError \<Rightarrow> string" where
  "GetCode e = (case Code (ErrorBody e) of None \<Rightarrow> '''' | Some c \<Rightarrow> c)"

definition GetStatus :: "BaseLLMError \<Rightarrow> int" where
  "GetStatus e = Status e"

text \<open>
  A Go \<^verbatim>\<open>error\<close> value is modelled by its message, \<^verbatim>\<open>nil\<close> by \<open>None\<close>.
  \<^verbatim>\<open>lo.Coalesce\<close> returns the first non-nil element and whether there was one.
\<close>

fun Coalesce :: "string option list \<Rightarrow> string option" where
  "Coalesce [] = None"
| "Coalesce (None # es) = Coalesce es"
| "Coalesce (Some e # es) = Some e"

definition NewErrorModelNotFoundOrNotAccessible :: "string \<Rightarrow> BaseLLMError" where
  "NewErrorModelNotFoundOrNotAccessible model =
     \<lparr>Status = StatusNotFound,
      ErrorBody = \<lparr>Code = Some LLMErrorCodeModelNotFoundOrNotAccessible,
        Message = ''The model `'' @ model @ ''` does not exist or you do not have access to it.''\<rparr>\<rparr>"

definition NewErrorModelAccessDenied :: "string \<Rightarrow> BaseLLMError" where
  "NewErrorModelAccessDenied model =
     \<lparr>Status = StatusForbidden,
      ErrorBody = \<lparr>Code = Some LLMErrorCodeModelAccessDenied,
        Message = ''You do not have access to the model `'' @ model @ ''`.''\<rparr>\<rparr>"

definition NewErrorRateLimitExceeded :: BaseLLMError where
  "NewErrorRateLimitExceeded =
     \<lparr>Status = StatusTooManyRequests,
      ErrorBody = \<lparr>Code = Some LLMErrorCodeRateLimitExceeded,
        Message = ''You have exceeded the rate limit. Please try again later.''\<rparr>\<rparr>"

definition NewErrorInsufficientQuota :: BaseLLMError where
  "NewErrorInsufficientQuota =
     \<lparr>Status = StatusPaymentRequired,
      ErrorBody = \<lparr>Code = Some LLMErrorCodeInsufficientQuota,
        Message = ''You exceeded your current quota.''\<rparr>\<rparr>"

definition NewErrorMissingAPIKey :: BaseLLMError where
  "NewErrorMissingAPIKey =
     \<lparr>Status = StatusUnauthorized,
      ErrorBody = \<lparr>Code = Some LLMErrorCodeMissingAPIKey, Message = ''Missing API key''\<rparr>\<rparr>"

definition NewErrorIncorrectAPIKey :: "string \<Rightarrow> BaseLLMError" where
  "NewErrorIncorrectAPIKey apiKey =
     \<lparr>Status = StatusUnauthorized,
      ErrorBody = \<lparr>Code = Some LLMErrorCodeIncorrectAPIKey,
        Message = ''Incorrect API key provided: '' @ apiKey\<rparr>\<rparr>"

definition NewErrorMissingModel :: BaseLLMError where
  "NewErrorMissingModel =
     \<lparr>Status = StatusNotFound,
      ErrorBody = \<lparr>Code = Some LLMErrorCodeMissingModel,
        Message = ''Missing required parameter: '' @ [CHR 0x27] @ ''model'' @ [CHR 0x27] @ ''.''\<rparr>\<rparr>"

text \<open>
  \<^verbatim>\<open>NewErrorInternalError\<close> appends a fresh "internal error" to its arguments, so
  \<^verbatim>\<open>lo.Must(lo.Coalesce(...))\<close> never panics; \<open>the\<close> is applied to a \<open>Some\<close> only.
\<close>

definition NewErrorInternalError :: "string option list \<Rightarrow> BaseLLMError" where
  "NewErrorInternalError internalErrs =
     \<lparr>Status = StatusInternalServerError,
      ErrorBody = \<lparr>Code = Some LLMErrorCodeInternalError,
        Message = the (Coalesce (internalErrs @ [Some ''internal error'']))\<rparr>\<rparr>"

definition NewErrorBadGateway :: "string option \<Rightarrow> BaseLLMError" where
  "NewErrorBadGateway upstreamErr =
     \<lparr>Status = StatusBadGateway,
      ErrorBody = \<lparr>Code = Some LLMErrorCodeBadGateway,
        Message = the (Coalesce [upstreamErr, Some ''bad gateway''])\<rparr>\<rparr>"

definition NewErrorServiceUnavailable :: BaseLLMError where
  "NewErrorServiceUnavailable =
     \<lparr>Status = StatusServiceUnavailable,
      ErrorBody = \<lparr>Code = Some LLMErrorCodeServiceUnavailable,
        Message = ''service unavailable''\<rparr>\<rparr>"

section \<open>Model access control (auth filter)\<close>

text \<open>
  \<^verbatim>\<open>doublestar.Match(rule, requestModel)\<close> is a third-party glob matcher returning
  \<^verbatim>\<open>(matched, err)\<close>. It is a parameter \<open>glob\<close> of the model: \<open>None\<close> stands for a
  returned error (a malformed pattern), \<open>Some b\<close> for the verdict \<open>b\<close>.
  \<^verbatim>\<open>lo.SomeBy\<close> is \<open>list_ex\<close>.
\<close>

type_synonym globber = "string \<Rightarrow> string \<Rightarrow> bool option"

definition rule_matches :: "globber \<Rightarrow> string \<Rightarrow> string \<Rightarrow> bool" where
  "rule_matches glob requestModel rule =
     (case glob rule requestModel of None \<Rightarrow> False | Some matched \<Rightarrow> matched)"

definition IsDenied :: "globber \<Rightarrow> string \<Rightarrow> string list \<Rightarrow> bool" where
  "IsDenied glob requestModel denyModels =
     (if length denyModels = 0 then False
      else list_ex (rule_matches glob requestModel) denyModels)"

definition IsGranted :: "globber \<Rightarrow> string \<Rightarrow> string list \<Rightarrow> bool" where
  "IsGranted glob requestModel allowModels =
     (if length allowModels = 0 then True
      else list_ex (rule_matches glob requestModel) allowModels)"

definition CanAccessModelFromValues :: "bool \<Rightarrow> bool \<Rightarrow> bool" where
  "CanAccessModelFromValues isDenied isGranted = (\<not> isDenied \<and> isGranted)"

definition CanAccessModel :: "globber \<Rightarrow> string \<Rightarrow> string list \<Rightarrow> string list \<Rightarrow> bool" where
  "CanAccessModel glob requestModel allowModels denyModels =
     (let denied = IsDenied glob requestModel denyModels;
          granted = IsGranted glob requestModel allowModels
      in CanAccessModelFromValues denied granted)"

text \<open>A matcher for patterns without metacharacters, used to run the model on examples.\<close>

definition literal_glob :: globber where
  "literal_glob rule requestModel = Some (rule = requestModel)"

section \<open>Load balancers (package loadbalance)\<close>

text \<open>
  A Go call either returns or panics (index out of range, a panicking library call).
\<close>

datatype 'a outcome = Panicked | Returned 'a

text \<open>
  \<^verbatim>\<open>memoryRequestCounter\<close> wraps an \<^verbatim>\<open>atomic.Int32\<close>: a 32-bit word read as a signed
  value. \<^verbatim>\<open>Desc\<close> calls \<^verbatim>\<open>m.count.And(-1)\<close>, a bitwise AND with the all-ones mask.
\<close>

type_synonym requestCounter = "32 word"

definition Current :: "requestCounter \<Rightarrow> int" where
  "Current m = sint m"

definition Inc :: "requestCounter \<Rightarrow> requestCounter" where
  "Inc m = m + 1"

definition Desc :: "requestCounter \<Rightarrow> requestCounter" where
  "Desc m = (if 0 < sint m then m AND (- 1) else m)"

definition Less :: "requestCounter \<Rightarrow> requestCounter \<Rightarrow> bool" where
  "Less m o' = (Current m < Current o')"

record server =
  name :: string
  weight :: int
  requestCounter :: requestCounter

text \<open>
  The load ratio is \<^verbatim>\<open>float64(count) / float64(weight)\<close>. Both operands are 32-bit
  integers, which float64 holds exactly; the quotient is modelled as the exact rational,
  with the IEEE results for a zero divisor. The rounding of the quotient to 53 bits is not
  modelled.
\<close>

datatype float64 = Finite rat | PosInf | NegInf | NaN

definition fdiv :: "int \<Rightarrow> int \<Rightarrow> float64" where
  "fdiv a b =
     (if b = 0 then (if a = 0 then NaN else if 0 < a then PosInf else NegInf)
      else Finite (of_int a / of_int b))"

fun flt :: "float64 \<Rightarrow> float64 \<Rightarrow> bool" where
  "flt (Finite a) (Finite b) = (a < b)"
| "flt (Finite a) PosInf = True"
| "flt NegInf (Finite b) = True"
| "flt NegInf PosInf = True"
| "flt _ _ = False"

fun feq :: "float64 \<Rightarrow> float64 \<Rightarrow> bool" where
  "feq (Finite a) (Finite b) = (a = b)"
| "feq PosInf PosInf = True"
| "feq NegInf NegInf = True"
| "feq _ _ = False"

record WeightedLeastRequest =
  wlr_servers :: "server list"
  wlr_current :: nat

text \<open>
  The selection loop of \<^verbatim>\<open>WeightedLeastRequest.Next\<close> over the servers paired with
  their indices. \<^verbatim>\<open>selectedServer\<close> is always \<^verbatim>\<open>w.servers[selected]\<close>, so the
  model carries the index only.
\<close>

fun leastLoop :: "server list \<Rightarrow> (nat \<times> server) list \<Rightarrow> nat \<Rightarrow> float64 \<Rightarrow> nat" where
  "leastLoop srvs [] selected leastLoadRatio = selected"
| "leastLoop srvs ((i, s) # rest) selected leastLoadRatio =
     (let loadRatio = fdiv (Current (requestCounter s)) (weight s);
          requestLess = (feq loadRatio leastLoadRatio
                         \<and> Less (requestCounter s) (requestCounter (srvs ! selected)))
      in if feq leastLoadRatio (Finite (- 1)) \<or> flt loadRatio leastLoadRatio \<or> requestLess
         then leastLoop srvs rest i loadRatio
         else leastLoop srvs rest selected leastLoadRatio)"

definition WLR_Next :: "WeightedLeastRequest \<Rightarrow> (WeightedLeastRequest \<times> string) outcome" where
  "WLR_Next w =
     (let srvs = wlr_servers w in
      if length srvs = 0 then Returned (w, '''')
      else if length srvs = 1 then Returned (w, name (srvs ! 0))
      else if length srvs \<le> wlr_current w then Panicked
      else
        let selected = leastLoop srvs (zip [0..<length srvs] srvs) (wlr_current w) (Finite (- 1));
            selectedServer = srvs ! selected
        in Returned
             (w\<lparr>wlr_current := selected,
                wlr_servers := srvs[selected :=
                  selectedServer\<lparr>requestCounter := Inc (requestCounter selectedServer)\<rparr>]\<rparr>,
              name selectedServer))"

definition WLR_Done :: "WeightedLeastRequest \<Rightarrow> WeightedLeastRequest outcome" where
  "WLR_Done w =
     (let srvs = wlr_servers w; cur = wlr_current w in
      if length srvs \<le> cur then Panicked
      else Returned
             (w\<lparr>wlr_servers := srvs[cur :=
                  (srvs ! cur)\<lparr>requestCounter := Desc (requestCounter (srvs ! cur))\<rparr>]\<rparr>))"

text \<open>\<^verbatim>\<open>newServers\<close>: one server per destination, each with a fresh counter.\<close>

definition newServers :: "(string \<times> int) list \<Rightarrow> server list" where
  "newServers destinations =
     map (\<lambda>(cluster, w). \<lparr>name = cluster, weight = w, requestCounter = 0\<rparr>) destinations"

definition NewWeightedLeastRequest :: "(string \<times> int) list \<Rightarrow> WeightedLeastRequest" where
  "NewWeightedLeastRequest destinations =
     \<lparr>wlr_servers = newServers destinations, wlr_current = 0\<rparr>"

text \<open>
  Weighted round robin. \<^verbatim>\<open>rand.Int(rand.Reader, max)\<close> of crypto/rand panics when
  \<^verbatim>\<open>max <= 0\<close>, returns an error when the entropy source fails, and otherwise returns a
  value. The entropy source is the parameter \<open>entropy\<close> (\<open>None\<close>: read error).
  \<^verbatim>\<open>current\<close> is an \<^verbatim>\<open>atomic.Int32\<close> that only ever holds an index, hence a \<open>nat\<close>.
\<close>

datatype draw = DrawPanic | DrawErr | DrawOk int

definition rand_Int :: "(int \<Rightarrow> int option) \<Rightarrow> int \<Rightarrow> draw" where
  "rand_Int entropy mx =
     (if mx \<le> 0 then DrawPanic
      else case entropy mx of None \<Rightarrow> DrawErr | Some r \<Rightarrow> DrawOk r)"

record WeightedRoundRobin =
  wrr_servers :: "server list"
  wrr_current :: nat

definition calculateTotalWeight :: "WeightedRoundRobin \<Rightarrow> int" where
  "calculateTotalWeight w = sum_list (map weight (wrr_servers w))"

text \<open>
  The scan \<^verbatim>\<open>for i := range w.servers\<close>: at step \<open>i\<close> the running total \<open>tot\<close> has
  the weights of the \<open>i\<close> targets already visited; \<open>None\<close> is \<^verbatim>\<open>foundIdx == -1\<close>.
\<close>

function wrrScan :: "server list \<Rightarrow> nat \<Rightarrow> int \<Rightarrow> nat \<Rightarrow> int \<Rightarrow> nat option" where
  "wrrScan srvs currentIndex randomWeight i tot =
     (if i < length srvs then
        let idx = (currentIndex + i) mod length srvs;
            tot' = tot + weight (srvs ! idx)
        in if randomWeight < tot' then Some idx
           else wrrScan srvs currentIndex randomWeight (Suc i) tot'
      else None)"
  by pat_completeness auto
termination
  by (relation "measure (\<lambda>(srvs, c, r, i, t). length srvs - i)") auto

declare wrrScan.simps [simp del]

definition WRR_Next ::
  "(int \<Rightarrow> int option) \<Rightarrow> WeightedRoundRobin \<Rightarrow> (WeightedRoundRobin \<times> string) outcome" where
  "WRR_Next entropy w =
     (let srvs = wrr_servers w in
      if length srvs = 0 then Returned (w, '''')
      else if length srvs = 1 then Returned (w, name (srvs ! 0))
      else case rand_Int entropy (calculateTotalWeight w) of
          DrawPanic \<Rightarrow> Panicked
        | DrawErr \<Rightarrow> Returned (w, '''')
        | DrawOk randomWeight \<Rightarrow>
            let currentIndex = wrr_current w;
                foundIdx = (case wrrScan srvs currentIndex randomWeight 0 0 of
                              None \<Rightarrow> currentIndex | Some idx \<Rightarrow> idx)
            in if length srvs \<le> foundIdx then Panicked
               else Returned (w\<lparr>wrr_current := Suc foundIdx mod length srvs\<rparr>,
                              name (srvs ! foundIdx)))"

text \<open>
  The state of a two-target least-request balancer after one \<^verbatim>\<open>Next\<close>: target a has one
  request in flight.
\<close>

definition wlr_busy :: WeightedLeastRequest where
  "wlr_busy =
     \<lparr>wlr_servers = [\<lparr>name = ''a'', weight = 1, requestCounter = 1\<rparr>,
                     \<lparr>name = ''b'', weight = 1, requestCounter = 0\<rparr>],
      wlr_current = 0\<rparr>"

text \<open>
  The cumulative weight of the first \<open>k\<close> targets visited by the round-robin scan, which
  starts at index \<open>cur\<close> and wraps around.
\<close>

definition visited_weight :: "server list \<Rightarrow> nat \<Rightarrow> nat \<Rightarrow> int" where
  "visited_weight srvs cur k = (\<Sum>i<k. weight (srvs ! ((cur + i) mod length srvs)))"

definition wrr_three :: WeightedRoundRobin where
  "wrr_three = \<lparr>wrr_servers = newServers [(''a'', 10), (''b'', 20), (''c'', 50)], wrr_current = 1\<rparr>"

text \<open>
  A round-robin balancer over two targets that both carry the weight 0, which the route
  controller accepts (it rejects only negative weights).
\<close>

definition wrr_zero_weights :: WeightedRoundRobin where
  "wrr_zero_weights = \<lparr>wrr_servers = newServers [(''a'', 0), (''b'', 0)], wrr_current = 0\<rparr>"

section \<open>Routes (package route) and the route registry (package manager)\<close>

text \<open>
  The route configuration is the generated type \<^verbatim>\<open>routev1alpha1.Route\<close>. Its
  \<^verbatim>\<open>StringMatch\<close> is a oneof; \<^verbatim>\<open>InitDirectModelRoute\<close> builds the \<^verbatim>\<open>Exact\<close>
  variant.

  Modelled from the spec: the \<^verbatim>\<open>Prefix\<close> variant of the route's \<^verbatim>\<open>StringMatch\<close>
  (the spec's \<^verbatim>\<open>StringMatch{exact|prefix}\<close>); the generated declaration is not among the
  sources. As for every generated getter, \<^verbatim>\<open>GetExact\<close> returns the empty string when
  another variant is set.
\<close>

datatype StringMatch = Exact string | Prefix string

fun GetExact :: "StringMatch \<Rightarrow> string" where
  "GetExact (Exact e) = e"
| "GetExact (Prefix p) = ''''"

record Match_entry =
  Model :: "StringMatch option"

record RouteDestination =
  Cluster :: string

record RouteTarget =
  Destination :: "RouteDestination option"

datatype LoadBalancePolicy =
  LOAD_BALANCE_POLICY_UNSPECIFIED | LOAD_BALANCE_POLICY_ROUND_ROBIN | LOAD_BALANCE_POLICY_LEAST_REQUEST

text \<open>Durations are nanoseconds; \<^verbatim>\<open>MaxRetries\<close> is a \<^verbatim>\<open>*uint64\<close>.\<close>

record RouteFallback =
  PreDelay :: "int option"
  PostDelay :: "int option"
  MaxRetries :: "64 word option"

record Route =
  Name :: string
  Matches :: "Match_entry list"
  Targets :: "RouteTarget list"
  LoadBalancePolicy :: LoadBalancePolicy
  Fallback :: "RouteFallback option"

definition GetCluster :: "RouteTarget \<Rightarrow> string" where
  "GetCluster t = (case Destination t of None \<Rightarrow> '''' | Some d \<Rightarrow> Cluster d)"

text \<open>\<^verbatim>\<open>GetMaxRetries\<close>: the pointee, or 0 for a nil pointer.\<close>

definition GetMaxRetries :: "RouteFallback \<Rightarrow> 64 word" where
  "GetMaxRetries fb = (case MaxRetries fb of None \<Rightarrow> 0 | Some n \<Rightarrow> n)"

text \<open>\<^verbatim>\<open>lo.CoalesceOrEmpty\<close>: the first argument that is not the zero value, else zero.\<close>

definition CoalesceOrEmpty :: "64 word \<Rightarrow> 64 word \<Rightarrow> 64 word" where
  "CoalesceOrEmpty a b = (if a \<noteq> 0 then a else if b \<noteq> 0 then b else 0)"

definition defaultRouteFallbackMaxRetries :: "64 word" where
  "defaultRouteFallbackMaxRetries = 3"

datatype RequestType =
  RequestTypeChatCompletions | RequestTypeCompletions | RequestTypeImageGenerations
  | RequestTypeTextToSpeech

record LLMRequest =
  req_Model :: string
  req_Type :: RequestType
  req_IsStream :: bool

text \<open>
  Go errors seen by the route: the sentinel \<^verbatim>\<open>openai.SkipStreamResponse\<close>, an error of
  the taxonomy, or any other error (by its message).
\<close>

datatype go_error = SkipStreamResponse | LLMError BaseLLMError | OtherError string

text \<open>
  A route holds its configuration (a pointer, possibly nil) and its request filters, here
  already selected by request type; a filter maps the request to \<open>Some e\<close> when it fails.
  The load balancer and the response filters are not part of the record: the balancer's
  answers are a parameter of \<open>HandleRequest\<close>, and the response filters only log.
\<close>

record routeDefault =
  cfg :: "Route option"
  completionRequestFilters :: "(LLMRequest \<Rightarrow> go_error option) list"
  imageGenerationsRequestFilters :: "(LLMRequest \<Rightarrow> go_error option) list"

definition GetMatches :: "routeDefault \<Rightarrow> Match_entry list" where
  "GetMatches m = (case cfg m of None \<Rightarrow> [] | Some c \<Rightarrow> Matches c)"

definition GetTargets :: "routeDefault \<Rightarrow> RouteTarget list" where
  "GetTargets m = (case cfg m of None \<Rightarrow> [] | Some c \<Rightarrow> Targets c)"

text \<open>\<^verbatim>\<open>routeDefault.Match\<close>: the loop over the match entries, each \<^verbatim>\<open>continue\<close> a step.\<close>

fun matchLoop :: "routeDefault \<Rightarrow> LLMRequest \<Rightarrow> Match_entry list \<Rightarrow> bool" where
  "matchLoop m request [] = False"
| "matchLoop m request (match # rest) =
     (case Model match of
        None \<Rightarrow> matchLoop m request rest
      | Some modelNameMatch \<Rightarrow>
          let exactMatch = GetExact modelNameMatch in
          if exactMatch = '''' then matchLoop m request rest
          else if req_Model request \<noteq> exactMatch then matchLoop m request rest
          else if length (GetTargets m) = 0 then matchLoop m request rest
          else True)"

definition Match :: "routeDefault \<Rightarrow> LLMRequest \<Rightarrow> bool" where
  "Match m request =
     (let matches = GetMatches m in
      if length matches = 0 then False else matchLoop m request matches)"

text \<open>
  The reading of the specification's sentence, for comparison with \<open>Match\<close>: an entry
  binds when its exact string equals the model or its prefix string is a prefix of the
  model; a route without targets is rejected.
\<close>

fun spec_binds :: "StringMatch \<Rightarrow> string \<Rightarrow> bool" where
  "spec_binds (Exact e) model = (model = e)"
| "spec_binds (Prefix p) model = (take (length p) model = p)"

definition spec_Match :: "routeDefault \<Rightarrow> LLMRequest \<Rightarrow> bool" where
  "spec_Match m request =
     (GetTargets m \<noteq> []
      \<and> list_ex (\<lambda>match. case Model match of None \<Rightarrow> False
                          | Some sm \<Rightarrow> spec_binds sm (req_Model request)) (GetMatches m))"

text \<open>
  The registry: two Go maps from route name to route. \<^verbatim>\<open>mergeRoutes\<close> copies the
  match-routes, then the base-routes whose name is still free, and returns
  \<^verbatim>\<open>lo.Values\<close> of the result, which ranges over a Go map: the order of the values is the
  map's iteration order, which the language leaves unspecified. The order is the parameter
  \<open>order\<close>, a list of the keys without repetition.
\<close>

definition uniqueRoutes ::
  "(string \<rightharpoonup> routeDefault) \<Rightarrow> (string \<rightharpoonup> routeDefault) \<Rightarrow> (string \<rightharpoonup> routeDefault)" where
  "uniqueRoutes matchRouteRegistry routeRegistry =
     (\<lambda>k. case matchRouteRegistry k of Some v \<Rightarrow> Some v | None \<Rightarrow> routeRegistry k)"

definition iteration_order :: "'k list \<Rightarrow> ('k \<rightharpoonup> 'v) \<Rightarrow> bool" where
  "iteration_order order m = (distinct order \<and> set order = dom m)"

definition Values :: "'k list \<Rightarrow> ('k \<rightharpoonup> 'v) \<Rightarrow> 'v list" where
  "Values order m = map (\<lambda>k. the (m k)) order"

definition mergeRoutes ::
  "string list \<Rightarrow> (string \<rightharpoonup> routeDefault) \<Rightarrow> (string \<rightharpoonup> routeDefault) \<Rightarrow> routeDefault list" where
  "mergeRoutes order matchRouteRegistry routeRegistry =
     Values order (uniqueRoutes matchRouteRegistry routeRegistry)"

text \<open>\<^verbatim>\<open>MatchRoute\<close>: the first route of the list that matches, \<open>None\<close> for nil.\<close>

fun MatchRoute :: "routeDefault list \<Rightarrow> LLMRequest \<Rightarrow> routeDefault option" where
  "MatchRoute [] request = None"
| "MatchRoute (r # routes) request = (if Match r request then Some r else MatchRoute routes request)"

text \<open>\<^verbatim>\<open>InitDirectModelRoute\<close> and a route built from it, without filters.\<close>

definition InitDirectModelRoute :: "string \<Rightarrow> Route" where
  "InitDirectModelRoute modelName =
     \<lparr>Name = modelName,
      Matches = [\<lparr>Model = Some (Exact modelName)\<rparr>],
      Targets = [\<lparr>Destination = Some \<lparr>Cluster = modelName\<rparr>\<rparr>],
      LoadBalancePolicy = LOAD_BALANCE_POLICY_UNSPECIFIED,
      Fallback = None\<rparr>"

definition NewWithConfig :: "Route \<Rightarrow> routeDefault" where
  "NewWithConfig c =
     \<lparr>cfg = Some c, completionRequestFilters = [], imageGenerationsRequestFilters = []\<rparr>"

text \<open>Example routes and requests.\<close>

definition prefix_route :: routeDefault where
  "prefix_route = NewWithConfig ((InitDirectModelRoute ''gpt'')\<lparr>Matches := [\<lparr>Model = Some (Prefix ''gpt'')\<rparr>]\<rparr>)"

definition gpt4_request :: LLMRequest where
  "gpt4_request = \<lparr>req_Model = ''gpt-4'', req_Type = RequestTypeChatCompletions, req_IsStream = False\<rparr>"

definition route_a :: routeDefault where
  "route_a = NewWithConfig ((InitDirectModelRoute ''gpt-4'')\<lparr>Name := ''a''\<rparr>)"
definition route_b :: routeDefault where
  "route_b = NewWithConfig ((InitDirectModelRoute ''gpt-4'')
     \<lparr>Name := ''b'', Targets := [\<lparr>Destination = Some \<lparr>Cluster = ''other''\<rparr>\<rparr>]\<rparr>)"
definition two_routes :: "string \<rightharpoonup> routeDefault" where
  "two_routes = [''a'' \<mapsto> route_a, ''b'' \<mapsto> route_b]"

text \<open>
  \<^verbatim>\<open>routeDefault.HandleRequest\<close>. What the call returns: the response (\<open>None\<close> for
  nil) and the error (\<open>None\<close> for nil); the model also reports the number of cluster calls
  made and the sleeps taken, in order.

  The cluster call \<^verbatim>\<open>clustermanager.HandleRequest\<close> and the load balancer's
  \<^verbatim>\<open>Next\<close> act on the outside world: they are parameters, \<open>upstream n c\<close> the result
  of the \<open>n\<close>-th call (counted from 0) to cluster \<open>c\<close>, \<open>pick n\<close> the balancer's
  answer in iteration \<open>n\<close>. The response filters and the chunk callback only log, and the
  write to the request metadata is not part of the result; they are left out.

  The \<^verbatim>\<open>for\<close> loop has no bound of its own, so the model runs it on fuel:
  \<open>None\<close> means that the loop has not returned within \<open>fuel\<close> iterations.
\<close>

record 'r handled =
  resp :: "'r option"
  err :: "go_error option"
  calls :: nat
  sleeps :: "int list"

fun fallbackLoop ::
  "nat \<Rightarrow> Route \<Rightarrow> (nat \<Rightarrow> string \<Rightarrow> 'r option \<times> go_error option) \<Rightarrow> (nat \<Rightarrow> string)
     \<Rightarrow> 64 word \<Rightarrow> nat \<Rightarrow> int list \<Rightarrow> 'r handled outcome option" where
  "fallbackLoop 0 c upstream pick retriedCount n slept = None"
| "fallbackLoop (Suc fuel) c upstream pick retriedCount n slept =
     (if LoadBalancePolicy c = LOAD_BALANCE_POLICY_UNSPECIFIED \<and> Targets c = []
      then Some Panicked
      else
        let clusterName =
              (if LoadBalancePolicy c = LOAD_BALANCE_POLICY_UNSPECIFIED
               then GetCluster (hd (Targets c)) else pick n);
            slept1 =
              (case Fallback c of
                 None \<Rightarrow> slept
               | Some fb \<Rightarrow>
                   (case PreDelay fb of
                      None \<Rightarrow> slept
                    | Some d \<Rightarrow> if 0 < retriedCount then slept @ [d] else slept));
            (rsp, e) = upstream n clusterName
        in if e = None \<or> e = Some SkipStreamResponse
           then Some (Returned \<lparr>resp = rsp, err = e, calls = Suc n, sleeps = slept1\<rparr>)
           else
             (case Fallback c of
                None \<Rightarrow> Some (Returned \<lparr>resp = rsp, err = e, calls = Suc n, sleeps = slept1\<rparr>)
              | Some fb \<Rightarrow>
                  let slept2 = (case PostDelay fb of None \<Rightarrow> slept1 | Some d \<Rightarrow> slept1 @ [d])
                  in if MaxRetries fb \<noteq> None
                     then
                       if CoalesceOrEmpty (GetMaxRetries fb) defaultRouteFallbackMaxRetries
                            \<le> retriedCount
                       then Some (Returned \<lparr>resp = rsp, err = e, calls = Suc n, sleeps = slept2\<rparr>)
                       else fallbackLoop fuel c upstream pick (retriedCount + 1) (Suc n) slept2
                     else fallbackLoop fuel c upstream pick retriedCount (Suc n) slept2))"

text \<open>The first failing request filter, in order.\<close>

fun firstFailed :: "(LLMRequest \<Rightarrow> go_error option) list \<Rightarrow> LLMRequest \<Rightarrow> go_error option" where
  "firstFailed [] request = None"
| "firstFailed (f # fs) request =
     (case f request of Some e \<Rightarrow> Some e | None \<Rightarrow> firstFailed fs request)"

definition requestFilters :: "routeDefault \<Rightarrow> LLMRequest \<Rightarrow> (LLMRequest \<Rightarrow> go_error option) list" where
  "requestFilters m request =
     (case req_Type request of
        RequestTypeChatCompletions \<Rightarrow> completionRequestFilters m
      | RequestTypeCompletions \<Rightarrow> completionRequestFilters m
      | RequestTypeImageGenerations \<Rightarrow> imageGenerationsRequestFilters m
      | RequestTypeTextToSpeech \<Rightarrow> [])"

definition HandleRequest ::
  "nat \<Rightarrow> routeDefault \<Rightarrow> LLMRequest \<Rightarrow> (nat \<Rightarrow> string \<Rightarrow> 'r option \<times> go_error option)
     \<Rightarrow> (nat \<Rightarrow> string) \<Rightarrow> 'r handled outcome option" where
  "HandleRequest fuel m request upstream pick =
     (case cfg m of
        None \<Rightarrow>
          Some (Returned \<lparr>resp = None,
            err = Some (LLMError (NewErrorModelNotFoundOrNotAccessible (req_Model request))),
            calls = 0, sleeps = []\<rparr>)
      | Some c \<Rightarrow>
          (case firstFailed (requestFilters m request) request of
             Some e \<Rightarrow> Some (Returned \<lparr>resp = None, err = Some e, calls = 0, sleeps = []\<rparr>)
           | None \<Rightarrow> fallbackLoop fuel c upstream pick 0 0 []))"

text \<open>
  A route with a fallback block that sets no \<^verbatim>\<open>max_retries\<close> (the controller's
  validation accepts it), one with \<^verbatim>\<open>max_retries\<close> 2, and a cluster whose every call
  fails.
\<close>

definition fallback_route :: "64 word option \<Rightarrow> routeDefault" where
  "fallback_route maxRetries =
     NewWithConfig ((InitDirectModelRoute ''gpt-4'')
       \<lparr>Fallback := Some \<lparr>PreDelay = None, PostDelay = None, MaxRetries = maxRetries\<rparr>\<rparr>)"

definition always_failing :: "nat \<Rightarrow> string \<Rightarrow> unit option \<times> go_error option" where
  "always_failing n clusterName = (None, Some (OtherError ''bad gateway''))"

section \<open>Local rate limiter (package ratelimit)\<close>

text \<open>
  Times are nanoseconds since the epoch (\<^verbatim>\<open>UnixNano\<close>), durations nanoseconds, both
  \<open>int\<close>. The fields of \<^verbatim>\<open>tokenBucket\<close> are \<^verbatim>\<open>atomic.Int64\<close>; their values stay far
  from the 64-bit range and are modelled as \<open>int\<close>.
\<close>

definition trunc_div :: "int \<Rightarrow> int \<Rightarrow> int" where
  "trunc_div num den =
     (if (num < 0) = (den < 0) then \<bar>num\<bar> div \<bar>den\<bar> else - (\<bar>num\<bar> div \<bar>den\<bar>))"

definition second :: int where "second = 1000000000"
definition maxTTL :: int where "maxTTL = 5 * 60 * second"
definition ttlRate :: int where "ttlRate = 2"
definition precision :: int where "precision = 1000"
definition maxBucketsPerShard :: nat where "maxBucketsPerShard = 10000"

text \<open>
  The refill rate and the elapsed seconds are computed in float64. A finite float64 is
  the pair \<open>(m, e)\<close> of a mantissa and an exponent, of value \<open>m * 2\<^sup>e\<close>. Every
  operation returns the exact result rounded to the nearest value with a mantissa of 53
  bits, a tie to the one with the even mantissa (the rounding of IEEE 754, which Go
  uses); the magnitudes that occur here lie inside the range of the normal numbers.

  \<open>round_ratio p q\<close> is the float64 nearest to \<open>p / q\<close> for \<open>q > 0\<close>: with \<open>e\<close>
  the exponent of the power of two next below \<open>|p| / q\<close>, the mantissa is
  \<open>|p| / q\<close> divided by the power of two of exponent \<open>e - 52\<close> and rounded to an
  integer.
\<close>

type_synonym binary64 = "int \<times> int"

definition round_even_div :: "int \<Rightarrow> int \<Rightarrow> int" where
  "round_even_div num den =
     (let f = num div den; r = num mod den
      in if 2 * r < den then f else if den < 2 * r then f + 1 else if even f then f else f + 1)"

definition shift_left :: "int \<Rightarrow> int \<Rightarrow> int" where
  "shift_left a s = (if 0 \<le> s then a * 2 ^ nat s else a)"

definition round_ratio :: "int \<Rightarrow> int \<Rightarrow> binary64" where
  "round_ratio p q =
     (if p = 0 then (0, 0)
      else
        let a = \<bar>p\<bar>;
            E = bitlen a - bitlen q;
            e = (if shift_left q E \<le> shift_left a (- E) then E else E - 1);
            m = round_even_div (shift_left a (52 - e)) (shift_left q (e - 52))
        in (sgn p * m, e - 52))"

definition float64_of_int :: "int \<Rightarrow> binary64" where
  "float64_of_int n = round_ratio n 1"

text \<open>The quotient and the sum; \<open>None\<close> is the result of a division by zero.\<close>

definition float64_div :: "binary64 \<Rightarrow> binary64 \<Rightarrow> binary64 option" where
  "float64_div x y =
     (case (x, y) of ((m1, e1), (m2, e2)) \<Rightarrow>
        if m2 = 0 then None
        else Some (round_ratio (sgn m2 * shift_left m1 (e1 - e2)) (shift_left \<bar>m2\<bar> (e2 - e1))))"

definition float64_add :: "binary64 \<Rightarrow> binary64 \<Rightarrow> binary64" where
  "float64_add x y =
     (case (x, y) of ((m1, e1), (m2, e2)) \<Rightarrow>
        let e = min e1 e2
        in round_ratio (shift_left (shift_left m1 (e1 - e) + shift_left m2 (e2 - e)) e)
             (shift_left 1 (- e)))"

text \<open>
  Go converts a float64 to int64 by truncation towards zero. The result for an infinity,
  a NaN or a value outside the 64-bit range depends on the processor; the model has that
  of amd64, the least int64.
\<close>

definition int64_of_float64 :: "binary64 option \<Rightarrow> int" where
  "int64_of_float64 x =
     (case x of
        None \<Rightarrow> - (2 ^ 63)
      | Some (m, e) \<Rightarrow>
          let t = (if 0 \<le> e then m * 2 ^ nat e else sgn m * (\<bar>m\<bar> div 2 ^ nat (- e)))
          in if - (2 ^ 63) \<le> t \<and> t < 2 ^ 63 then t else - (2 ^ 63))"

text \<open>
  \<^verbatim>\<open>Duration.Seconds\<close> of the standard library:
  \<^verbatim>\<open>sec := d / Second; nsec := d % Second; return float64(sec) + float64(nsec)/1e9\<close>.
\<close>

definition Seconds :: "int \<Rightarrow> binary64" where
  "Seconds d =
     (let sec = trunc_div d second;
          nsec = d - sec * second
      in float64_add (float64_of_int sec)
           (the (float64_div (float64_of_int nsec) (float64_of_int 1000000000))))"

record tokenBucket =
  tokens :: int
  capacity :: int
  rate :: int
  lastUpdate :: int
  oldLimit :: int
  expireAt :: int

text \<open>
  A shard holds two Go maps, each given by the list of its entries, no key twice. A
  \<^verbatim>\<open>range\<close> loop visits the keys of a map in an order that Go leaves open: the order
  is the parameter \<open>order\<close> of the call that runs the loop.
\<close>

record rateLimitShard =
  buckets :: "(string \<times> tokenBucket) list"
  lastAccessTime :: "(string \<times> int) list"

text \<open>The loop of \<^verbatim>\<open>evictOldestBucket\<close> over the access times, in the order given.\<close>

fun oldestLoop :: "(string \<times> int) list \<Rightarrow> string list \<Rightarrow> string \<Rightarrow> int \<Rightarrow> string" where
  "oldestLoop accessTimes [] oldestKey oldestTime = oldestKey"
| "oldestLoop accessTimes (k # order) oldestKey oldestTime =
     (case map_of accessTimes k of
        None \<Rightarrow> oldestLoop accessTimes order oldestKey oldestTime
      | Some t \<Rightarrow>
          if t < oldestTime then oldestLoop accessTimes order k t
          else oldestLoop accessTimes order oldestKey oldestTime)"

definition evictOldestBucket :: "string list \<Rightarrow> rateLimitShard \<Rightarrow> int \<Rightarrow> rateLimitShard" where
  "evictOldestBucket order shard now =
     (let oldestKey = oldestLoop (lastAccessTime shard) order '''' now
      in shard\<lparr>buckets := AList.delete oldestKey (buckets shard),
                lastAccessTime := AList.delete oldestKey (lastAccessTime shard)\<rparr>)"

text \<open>
  \<^verbatim>\<open>initBucket\<close> and \<^verbatim>\<open>updateBucket\<close> return the bucket and the shard as they leave
  it. The bucket is a pointer into the map: what a function writes to the bucket it
  writes to the map's entry.
\<close>

definition initBucket ::
  "string list \<Rightarrow> rateLimitShard \<Rightarrow> string \<Rightarrow> int \<Rightarrow> int \<Rightarrow> int \<Rightarrow> int \<Rightarrow> int
     \<Rightarrow> tokenBucket \<times> rateLimitShard" where
  "initBucket order shard key limit newCapacity newRate now expireAt' =
     (let shard1 = (if maxBucketsPerShard \<le> length (buckets shard)
                    then evictOldestBucket order shard now else shard);
          bucket = \<lparr>tokens = newCapacity, capacity = newCapacity, rate = newRate,
                    lastUpdate = now, oldLimit = limit, expireAt = expireAt'\<rparr>
      in (bucket, shard1\<lparr>buckets := AList.update key bucket (buckets shard1)\<rparr>))"

definition updateBucket ::
  "string list \<Rightarrow> rateLimitShard \<Rightarrow> tokenBucket \<Rightarrow> string \<Rightarrow> int \<Rightarrow> int \<Rightarrow> int \<Rightarrow> int \<Rightarrow> int
     \<Rightarrow> tokenBucket \<times> rateLimitShard" where
  "updateBucket order shard bucket key limit newCapacity newRate now expireAt' =
     (if expireAt bucket < now
      then initBucket order
             (shard\<lparr>buckets := AList.delete key (buckets shard),
                     lastAccessTime := AList.delete key (lastAccessTime shard)\<rparr>)
             key limit newCapacity newRate now expireAt'
      else
        let bucket1 =
              (if oldLimit bucket \<noteq> limit
               then bucket\<lparr>oldLimit := limit, capacity := newCapacity, rate := newRate\<rparr>
               else bucket);
            bucket2 = bucket1\<lparr>expireAt := expireAt'\<rparr>
        in (bucket2, shard\<lparr>buckets := AList.update key bucket2 (buckets shard)\<rparr>))"

definition tryConsume :: "tokenBucket \<Rightarrow> int \<Rightarrow> bool \<times> tokenBucket" where
  "tryConsume bucket now =
     (let elapsed = Seconds (now - lastUpdate bucket);
          tokensToAdd = int64_of_float64 (Some elapsed) * rate bucket;
          bucket1 =
            (if 0 < tokensToAdd
             then bucket\<lparr>tokens := min (tokens bucket + tokensToAdd) (capacity bucket),
                         lastUpdate := now\<rparr>
             else bucket)
      in if precision \<le> tokens bucket1
         then (True, bucket1\<lparr>tokens := tokens bucket1 - precision\<rparr>)
         else (False, bucket1))"

text \<open>\<^verbatim>\<open>int64(float64(newCapacity) / window.Seconds())\<close>.\<close>

definition newRate :: "int \<Rightarrow> int \<Rightarrow> int" where
  "newRate newCapacity window =
     int64_of_float64 (float64_div (float64_of_int newCapacity) (Seconds window))"

definition checkBucketLocal ::
  "string list \<Rightarrow> rateLimitShard \<Rightarrow> string \<Rightarrow> int \<Rightarrow> int \<Rightarrow> int \<Rightarrow> bool \<times> rateLimitShard" where
  "checkBucketLocal order shard key window limit now =
     (let shard0 = shard\<lparr>lastAccessTime := AList.update key now (lastAccessTime shard)\<rparr>;
          ttl = max maxTTL (window * ttlRate);
          expireAt' = now + ttl;
          newCapacity = limit * precision;
          (bucket, shard1) =
            (case map_of (buckets shard0) key of
               None \<Rightarrow> initBucket order shard0 key limit newCapacity
                         (newRate newCapacity window) now expireAt'
             | Some b \<Rightarrow> updateBucket order shard0 b key limit newCapacity
                           (newRate newCapacity window) now expireAt');
          (ok, bucket') = tryConsume bucket now
      in (ok, shard1\<lparr>buckets := AList.update key bucket' (buckets shard1)\<rparr>))"

text \<open>
  \<^verbatim>\<open>cleanup\<close>, for one shard: the loop over the buckets deletes every expired bucket
  and its access time.
\<close>

fun cleanup :: "string list \<Rightarrow> rateLimitShard \<Rightarrow> int \<Rightarrow> rateLimitShard" where
  "cleanup [] shard now = shard"
| "cleanup (key # order) shard now =
     (case map_of (buckets shard) key of
        None \<Rightarrow> cleanup order shard now
      | Some bucket \<Rightarrow>
          if expireAt bucket < now
          then cleanup order
                 (shard\<lparr>buckets := AList.delete key (buckets shard),
                         lastAccessTime := AList.delete key (lastAccessTime shard)\<rparr>) now
          else cleanup order shard now)"

text \<open>
  What happens to a shard, under its lock, in the order of time: calls of
  \<^verbatim>\<open>checkBucketLocal\<close> for any keys, each with its window, its limit, the time
  \<^verbatim>\<open>time.Now()\<close> gave it and the order its \<^verbatim>\<open>range\<close> loop takes, and runs of
  \<^verbatim>\<open>cleanup\<close>. A run yields the verdicts of its calls in order, each with the key.
\<close>

datatype event =
  Check (ev_key: string) (ev_window: int) (ev_limit: int) (ev_now: int) (ev_order: "string list")
  | Cleanup (ev_now: int) (ev_order: "string list")

fun step :: "rateLimitShard \<Rightarrow> event \<Rightarrow> rateLimitShard" where
  "step shard (Check key window limit now order) =
     snd (checkBucketLocal order shard key window limit now)"
| "step shard (Cleanup now order) = cleanup order shard now"

fun verdicts :: "rateLimitShard \<Rightarrow> event list \<Rightarrow> (string \<times> bool) list" where
  "verdicts shard [] = []"
| "verdicts shard (Check key window limit now order # later) =
     (key, fst (checkBucketLocal order shard key window limit now))
       # verdicts (step shard (Check key window limit now order)) later"
| "verdicts shard (Cleanup now order # later) = verdicts (step shard (Cleanup now order)) later"

text \<open>The number of requests of the run that were allowed for the key.\<close>

definition allowed :: "string \<Rightarrow> rateLimitShard \<Rightarrow> event list \<Rightarrow> int" where
  "allowed key shard evs = int (length (filter (\<lambda>(k, ok). k = key \<and> ok) (verdicts shard evs)))"

text \<open>The calls of the run for the key, and the times of these calls.\<close>

fun for_key :: "string \<Rightarrow> event \<Rightarrow> bool" where
  "for_key key (Check k window limit now order) = (k = key)"
| "for_key key (Cleanup now order) = False"

definition key_times :: "string \<Rightarrow> event list \<Rightarrow> int list" where
  "key_times key evs = map ev_now (filter (for_key key) evs)"

text \<open>
  No call of the run for another key removes the key's bucket: the bucket is not evicted.
\<close>

fun other_key :: "string \<Rightarrow> event \<Rightarrow> bool" where
  "other_key key (Check k window limit now order) = (k \<noteq> key)"
| "other_key key (Cleanup now order) = False"

fun not_evicted :: "string \<Rightarrow> rateLimitShard \<Rightarrow> event list \<Rightarrow> bool" where
  "not_evicted key shard [] = True"
| "not_evicted key shard (e # later) =
     ((other_key key e \<and> map_of (buckets shard) key \<noteq> None
         \<longrightarrow> map_of (buckets (step shard e)) key \<noteq> None)
      \<and> not_evicted key (step shard e) later)"

text \<open>
  The whole seconds of the time elapsed between any two of the given instants are what
  \<^verbatim>\<open>int64(elapsed)\<close> yields: the rounding to float64 does not reach the next second.
\<close>

definition whole_seconds :: "int list \<Rightarrow> bool" where
  "whole_seconds ts =
     (\<forall>a \<in> set ts. \<forall>b \<in> set ts.
        a \<le> b \<longrightarrow> int64_of_float64 (Some (Seconds (b - a))) = (b - a) div second)"

text \<open>
  A bucket as checkBucketLocal leaves it for the given window and limit, last updated no
  later than \<open>now\<close>.
\<close>

definition bucket_for :: "int \<Rightarrow> int \<Rightarrow> int \<Rightarrow> tokenBucket \<Rightarrow> bool" where
  "bucket_for window limit now b =
     (capacity b = limit * precision
      \<and> rate b = newRate (limit * precision) window
      \<and> oldLimit b = limit
      \<and> 0 \<le> tokens b \<and> tokens b \<le> capacity b
      \<and> lastUpdate b \<le> now)"

text \<open>The instant of the key's bucket's last update, if the shard has the bucket.\<close>

definition last_updates :: "string \<Rightarrow> rateLimitShard \<Rightarrow> int list" where
  "last_updates key shard =
     (case map_of (buckets shard) key of None \<Rightarrow> [] | Some b \<Rightarrow> [lastUpdate b])"

text \<open>
  The bucket from which a call of \<^verbatim>\<open>checkBucketLocal\<close> takes the token, given the
  key's entry in the map of buckets: a new bucket where there is none or an expired one,
  and else the entry with its limit and expiry brought up to date.
\<close>

definition served_bucket :: "tokenBucket option \<Rightarrow> int \<Rightarrow> int \<Rightarrow> int \<Rightarrow> tokenBucket" where
  "served_bucket entry window limit now =
     (let expireAt' = now + max maxTTL (window * ttlRate);
          newCapacity = limit * precision;
          fresh = \<lparr>tokens = newCapacity, capacity = newCapacity,
                   rate = newRate newCapacity window, lastUpdate = now, oldLimit = limit,
                   expireAt = expireAt'\<rparr>
      in case entry of
           None \<Rightarrow> fresh
         | Some b \<Rightarrow>
             if expireAt b < now then fresh
             else (if oldLimit b \<noteq> limit
                   then b\<lparr>oldLimit := limit, capacity := newCapacity,
                          rate := newRate newCapacity window\<rparr>
                   else b)\<lparr>expireAt := expireAt'\<rparr>)"

text \<open>The shard of a limiter that has just been started.\<close>

definition newShard :: rateLimitShard where
  "newShard = \<lparr>buckets = [], lastAccessTime = []\<rparr>"

text \<open>
  For the key \<^verbatim>\<open>k\<close>, limit 10 and a window of 10 s: ten requests at time 0, then one
  request at each of the next nine seconds.
\<close>

definition burst_then_steady :: "event list" where
  "burst_then_steady =
     map (\<lambda>t. Check ''k'' (10 * second) 10 t [])
       (replicate 10 0 @ map (\<lambda>n. int n * second) [1..<10])"

text \<open>
  For the accounting of a run that ends at time \<open>T\<close>: the tokens a bucket holds plus
  those that whole elapsed seconds can still add to it up to \<open>T\<close>.
\<close>

definition refill_potential :: "tokenBucket \<Rightarrow> int \<Rightarrow> int" where
  "refill_potential b T = tokens b + max 0 (rate b) * ((T - lastUpdate b) div second)"

text \<open>For the key \<^verbatim>\<open>k\<close>, limit 1 and a window of one hour: one request every ten minutes for three hours.\<close>

definition every_ten_minutes :: "event list" where
  "every_ten_minutes =
     map (\<lambda>n. Check ''k'' (3600 * second) 1 (int n * (600 * second)) []) [0..<19]"

text \<open>
  A shard that holds, for the key \<^verbatim>\<open>k\<close>, the bucket of limit 10 and window 10 s after
  its ten tokens were taken at time 0, and a run on it: a request for \<^verbatim>\<open>k\<close> at 1 s, a
  request for another key, a cleanup, and a request for \<^verbatim>\<open>k\<close> at 2 s.
\<close>

definition drained_shard :: rateLimitShard where
  "drained_shard =
     \<lparr>buckets = [(''k'', \<lparr>tokens = 0, capacity = 10 * precision, rate = precision,
                          lastUpdate = 0, oldLimit = 10, expireAt = maxTTL\<rparr>)],
      lastAccessTime = [(''k'', 0)]\<rparr>"

definition mixed_run :: "event list" where
  "mixed_run =
     [Check ''k'' (10 * second) 10 second [''k''],
      Check ''other'' (60 * second) 5 second [''k'', ''other''],
      Cleanup (2 * second) [''other'', ''k''],
      Check ''k'' (10 * second) 10 (2 * second) [''other'', ''k'']]"

section \<open>Chat completion stream (package openai)\<close>

text \<open>
  Byte slices are strings. \<^verbatim>\<open>bytes.TrimSpace\<close> removes leading and trailing white space;
  the model knows the ASCII white space characters (a multi-byte Unicode space is not
  treated as such).
\<close>

definition isSpace :: "char \<Rightarrow> bool" where
  "isSpace c = (c \<in> {CHR 0x09, CHR 0x0A, CHR 0x0B, CHR 0x0C, CHR 0x0D, CHR 0x20})"

definition TrimSpace :: "string \<Rightarrow> string" where
  "TrimSpace s = rev (dropWhile isSpace (rev (dropWhile isSpace s)))"

definition HasPrefix :: "string \<Rightarrow> string \<Rightarrow> bool" where
  "HasPrefix s pre = (take (length pre) s = pre)"

definition TrimPrefix :: "string \<Rightarrow> string \<Rightarrow> string" where
  "TrimPrefix s pre = (if HasPrefix s pre then drop (length pre) s else s)"

fun Contains :: "string \<Rightarrow> string \<Rightarrow> bool" where
  "Contains [] sub = (sub = [])"
| "Contains (c # s) sub = (HasPrefix (c # s) sub \<or> Contains s sub)"

definition headerData :: string where
  \<open>headerData = ''data: ''\<close>

definition errorPrefix :: string where
  \<open>errorPrefix = ''data: {"error":''\<close>

definition usageCompletionTokens :: string where
  \<open>usageCompletionTokens = ''"completion_tokens":''\<close>

text \<open>
  Decoding is done by encoding/json and by helpers of package utils: they are the
  parameters of the model. \<open>unmarshal\<close> is \<^verbatim>\<open>json.Unmarshal\<close> into a map (\<open>None\<close>: an
  error), \<open>model_of\<close> reads \<^verbatim>\<open>{ .model }\<close>, \<open>usage_of\<close> reads \<^verbatim>\<open>{ .usage }\<close> and
  converts it with \<^verbatim>\<open>utils.FromMap\<close> (\<open>None\<close>: an error).
\<close>

record ('j, 'u) json_codec =
  unmarshal :: "string \<Rightarrow> 'j option"
  model_of :: "'j \<Rightarrow> string"
  usage_of :: "'j \<Rightarrow> 'u option"

datatype stream_error = EOF | UnmarshalError | UsageError

record ('j, 'u) ChatCompletionStreamChunk =
  chunk_Model :: string
  chunk_Usage :: "'u option"
  bodyParsed :: "'j option"
  isEmpty :: bool
  isDone :: bool
  isUsage :: bool
  isFirst :: bool

text \<open>
  The stream: \<open>reader\<close> holds the lines still to be read, each as
  \<^verbatim>\<open>ReadBytes('\n')\<close> returns it; once they are used up the read fails with
  \<^verbatim>\<open>io.EOF\<close>. \<open>eofCancelled\<close> records that \<^verbatim>\<open>eofCancelFunc\<close> was called. Writing
  to the \<^verbatim>\<open>bytes.Buffer\<close> never returns an error. The chunk callbacks, run on return,
  do not change the chunk and are left out.
\<close>

record 'u ChatCompletionStreamResponse =
  stream_Model :: string
  stream_Usage :: "'u option"
  reader :: "string list"
  hasErrorPrefix :: bool
  errorEventBuffer :: string
  stream_isDone :: bool
  chunkNum :: nat
  eofCancelled :: bool

definition NewChatCompletionStreamResponse :: "string list \<Rightarrow> 'u ChatCompletionStreamResponse" where
  "NewChatCompletionStreamResponse lines =
     \<lparr>stream_Model = '''', stream_Usage = None, reader = lines, hasErrorPrefix = False,
      errorEventBuffer = '''', stream_isDone = False, chunkNum = 0, eofCancelled = False\<rparr>"

definition IsFirst :: "'u ChatCompletionStreamResponse \<Rightarrow> bool" where
  "IsFirst r = (chunkNum r = 1)"

definition NewEmptyChatCompletionStreamChunk ::
  "'u ChatCompletionStreamResponse \<Rightarrow> ('j, 'u) ChatCompletionStreamChunk" where
  "NewEmptyChatCompletionStreamChunk streamResp =
     \<lparr>chunk_Model = '''', chunk_Usage = None, bodyParsed = None,
      isEmpty = True, isDone = False, isUsage = False, isFirst = IsFirst streamResp\<rparr>"

definition NewDoneChatCompletionStreamChunk :: "('j, 'u) ChatCompletionStreamChunk" where
  "NewDoneChatCompletionStreamChunk =
     \<lparr>chunk_Model = '''', chunk_Usage = None, bodyParsed = None,
      isEmpty = False, isDone = True, isUsage = False, isFirst = False\<rparr>"

text \<open>The chunk constructors return the chunk, the error and the stream, whose model they may set.\<close>

definition NewChatCompletionStreamChunk ::
  "('j, 'u) json_codec \<Rightarrow> 'u ChatCompletionStreamResponse \<Rightarrow> string
     \<Rightarrow> ('j, 'u) ChatCompletionStreamChunk \<times> stream_error option \<times> 'u ChatCompletionStreamResponse" where
  "NewChatCompletionStreamChunk codec streamResp bs =
     (case unmarshal codec bs of
        None \<Rightarrow> (NewEmptyChatCompletionStreamChunk streamResp, Some UnmarshalError, streamResp)
      | Some body \<Rightarrow>
          let model = model_of codec body;
              chunk = \<lparr>chunk_Model = model, chunk_Usage = None, bodyParsed = Some body,
                       isEmpty = False, isDone = False, isUsage = False,
                       isFirst = IsFirst streamResp\<rparr>
          in (chunk, None,
              if stream_Model streamResp = '''' then streamResp\<lparr>stream_Model := model\<rparr>
              else streamResp))"

definition NewUsageChatCompletionStreamChunk ::
  "('j, 'u) json_codec \<Rightarrow> 'u ChatCompletionStreamResponse \<Rightarrow> string
     \<Rightarrow> ('j, 'u) ChatCompletionStreamChunk \<times> stream_error option \<times> 'u ChatCompletionStreamResponse" where
  "NewUsageChatCompletionStreamChunk codec streamResp bs =
     (case unmarshal codec bs of
        None \<Rightarrow> (NewEmptyChatCompletionStreamChunk streamResp, Some UnmarshalError, streamResp)
      | Some body \<Rightarrow>
          (case usage_of codec body of
             None \<Rightarrow> (NewEmptyChatCompletionStreamChunk streamResp, Some UsageError, streamResp)
           | Some usage \<Rightarrow>
               let model = model_of codec body;
                   chunk = \<lparr>chunk_Model = model, chunk_Usage = Some usage, bodyParsed = Some body,
                            isEmpty = False, isDone = False, isUsage = True,
                            isFirst = IsFirst streamResp\<rparr>
               in (chunk, None,
                   if stream_Model streamResp = '''' then streamResp\<lparr>stream_Model := model\<rparr>
                   else streamResp)))"

text \<open>
  \<^verbatim>\<open>NextChunk\<close> returns the chunk (\<open>None\<close>: the nil interface, returned when the usage
  chunk cannot be built), the error, and the stream.
\<close>

definition NextChunk ::
  "('j, 'u) json_codec \<Rightarrow> 'u ChatCompletionStreamResponse
     \<Rightarrow> ('j, 'u) ChatCompletionStreamChunk option \<times> stream_error option
        \<times> 'u ChatCompletionStreamResponse" where
  "NextChunk codec r =
     (case reader r of
        [] \<Rightarrow>
          (Some (NewEmptyChatCompletionStreamChunk r), Some EOF, r\<lparr>eofCancelled := True\<rparr>)
      | line # rest \<Rightarrow>
          let r0 = r\<lparr>reader := rest\<rparr> in
          if hasErrorPrefix r0
          then (Some (NewEmptyChatCompletionStreamChunk r0), None, r0\<lparr>eofCancelled := True\<rparr>)
          else
            let noSpaceLine = TrimSpace line;
                r1 = (if HasPrefix noSpaceLine errorPrefix then r0\<lparr>hasErrorPrefix := True\<rparr>
                      else r0)
            in if \<not> HasPrefix noSpaceLine headerData \<or> hasErrorPrefix r1
               then
                 let noSpaceLine' = (if hasErrorPrefix r1 then TrimPrefix noSpaceLine headerData
                                     else noSpaceLine);
                     r2 = r1\<lparr>errorEventBuffer := errorEventBuffer r1 @ noSpaceLine'\<rparr>
                 in (Some (NewEmptyChatCompletionStreamChunk r2), None, r2)
               else
                 let r2 = r1\<lparr>chunkNum := chunkNum r1 + 1\<rparr>;
                     noPrefixLine = TrimPrefix noSpaceLine headerData
                 in if noPrefixLine = ''[DONE]''
                    then (Some NewDoneChatCompletionStreamChunk, Some EOF,
                          r2\<lparr>stream_isDone := True, eofCancelled := True\<rparr>)
                    else if Contains noPrefixLine usageCompletionTokens
                    then
                      (case NewUsageChatCompletionStreamChunk codec r2 noPrefixLine of
                         (usageChunk, Some e, r3) \<Rightarrow> (None, Some e, r3\<lparr>eofCancelled := True\<rparr>)
                       | (usageChunk, None, r3) \<Rightarrow>
                           (Some usageChunk, None, r3\<lparr>stream_Usage := chunk_Usage usageChunk\<rparr>))
                    else
                      (case NewChatCompletionStreamChunk codec r2 noPrefixLine of
                         (chunk, Some e, r3) \<Rightarrow> (Some chunk, Some e, r3\<lparr>eofCancelled := True\<rparr>)
                       | (chunk, None, r3) \<Rightarrow> (Some chunk, None, r3)))"

text \<open>
  The chunks of a stream: what a consumer such as \<^verbatim>\<open>pipeCompletionsStream\<close> receives by
  calling \<^verbatim>\<open>NextChunk\<close> until it returns an error, that last call included. Each call
  that returns no error has read one line, so the consumer's loop ends.
\<close>

function stream_chunks ::
  "('j, 'u) json_codec \<Rightarrow> 'u ChatCompletionStreamResponse
     \<Rightarrow> (('j, 'u) ChatCompletionStreamChunk option \<times> stream_error option) list" where
  "stream_chunks codec r =
     (case NextChunk codec r of
        (chunk, Some e, r') \<Rightarrow> [(chunk, Some e)]
      | (chunk, None, r') \<Rightarrow> (chunk, None) # stream_chunks codec r')"
  by pat_completeness auto
termination
  apply (relation "measure (\<lambda>(codec, r). length (reader r))")
   apply simp
  apply (auto simp: NextChunk_def Let_def NewUsageChatCompletionStreamChunk_def
      NewChatCompletionStreamChunk_def split: list.splits if_splits option.splits prod.splits)
  done

declare stream_chunks.simps [simp del]

text \<open>
  The chunks themselves, and the discriminant the consumer acts on: it skips empty chunks
  before it looks at \<^verbatim>\<open>IsFirst\<close>.

  \<open>braces_codec\<close> stands for the decoders on the example lines below, all of which
  are JSON objects with a model and a usage map: it accepts what is enclosed in braces.
\<close>

definition chunks_of ::
  "('j, 'u) json_codec \<Rightarrow> 'u ChatCompletionStreamResponse \<Rightarrow> ('j, 'u) ChatCompletionStreamChunk list" where
  "chunks_of codec r = List.map_filter fst (stream_chunks codec r)"

definition first_data_chunk :: "('j, 'u) ChatCompletionStreamChunk \<Rightarrow> bool" where
  "first_data_chunk ch = (isFirst ch \<and> \<not> isEmpty ch)"

definition braces_codec :: "(string, string) json_codec" where
  "braces_codec =
     \<lparr>unmarshal = (\<lambda>bs. if bs \<noteq> [] \<and> hd bs = CHR 0x7B \<and> last bs = CHR 0x7D then Some bs else None),
      model_of = (\<lambda>body. ''m''),
      usage_of = (\<lambda>body. Some body)\<rparr>"

definition usage_line_1 :: string where
  \<open>usage_line_1 = ''data: {"model":"m","usage":{"completion_tokens":1}}'' @ [CHR 0x0A]\<close>
definition usage_line_2 :: string where
  \<open>usage_line_2 = ''data: {"model":"m","usage":{"completion_tokens":2}}'' @ [CHR 0x0A]\<close>
definition done_line :: string where
  "done_line = ''data: [DONE]'' @ [CHR 0x0A]"

definition two_usage_stream :: "string list" where
  "two_usage_stream = [usage_line_1, [CHR 0x0A], usage_line_2, [CHR 0x0A], done_line]"

section \<open>Request body mutation (package openai)\<close>

text \<open>
  A JSON document. The request's byte buffer is modelled by the document it encodes, an
  object by the list of its members in the order of the text (a member name may occur more
  than once), numbers as integers.
\<close>

datatype json =
  JNull | JBool bool | JNumber int | JString string | JArray "json list"
  | JObject "(string \<times> json) list"

datatype patch_error = ErrMissing | UnmarshalTypeError | OtherPatchError

text \<open>
  \<^verbatim>\<open>json.Unmarshal\<close> into a \<^verbatim>\<open>map[string]any\<close>: an object, or null for the nil map.
  Of a member name that occurs more than once the decoder keeps the last value.
\<close>

fun Unmarshal :: "json \<Rightarrow> patch_error + (string \<rightharpoonup> json)" where
  "Unmarshal (JObject members) = Inr (map_of (rev members))"
| "Unmarshal JNull = Inr Map.empty"
| "Unmarshal _ = Inl UnmarshalTypeError"

text \<open>
  Modelled from the spec: the patch operation objects built by \<^verbatim>\<open>NewAdd\<close> and
  \<^verbatim>\<open>NewRemove\<close> (``mutations are applied via a JSON-patch equivalent''); their source
  is not among the files.

  The patch is applied by the third-party json-patch library (version 5), following
  RFC 6902 and RFC 6901: the path is split at \<^verbatim>\<open>/\<close>, and each reference token is
  decoded, \<^verbatim>\<open>~1\<close> to \<^verbatim>\<open>/\<close> and \<^verbatim>\<open>~0\<close> to \<^verbatim>\<open>~\<close>. The model carries out the
  operations on a member of the top-level object; paths that descend further, and
  documents that are not objects, are left to the parameter \<open>nested\<close>.
\<close>

datatype JSONPatchOperationObject = NewAdd string json | NewRemove string

fun op_path :: "JSONPatchOperationObject \<Rightarrow> string" where
  "op_path (NewAdd p v) = p"
| "op_path (NewRemove p) = p"

record ApplyOptions =
  AllowMissingPathOnRemove :: bool
  EnsurePathExistsOnAdd :: bool

definition NewApplyOptions :: ApplyOptions where
  "NewApplyOptions = \<lparr>AllowMissingPathOnRemove = False, EnsurePathExistsOnAdd = False\<rparr>"

fun split_slash :: "string \<Rightarrow> string list" where
  "split_slash [] = [[]]"
| "split_slash (c # cs) =
     (if c = CHR ''/'' then [] # split_slash cs
      else (c # hd (split_slash cs)) # tl (split_slash cs))"

fun decodePatchKey :: "string \<Rightarrow> string" where
  "decodePatchKey (c # d # cs) =
     (if c = CHR ''~'' \<and> d = CHR ''1'' then CHR ''/'' # decodePatchKey cs
      else if c = CHR ''~'' \<and> d = CHR ''0'' then CHR ''~'' # decodePatchKey cs
      else c # decodePatchKey (d # cs))"
| "decodePatchKey cs = cs"

text \<open>
  The library decodes an object into its \<^verbatim>\<open>partialDoc\<close>: \<^verbatim>\<open>keys\<close>, the member names
  in the order of the text, a repeated name repeated, and \<^verbatim>\<open>obj\<close>, the map from a name
  to its value, the last one of a repeated name. \<^verbatim>\<open>MarshalJSON\<close> writes the names of
  \<^verbatim>\<open>keys\<close> in order, each with the value \<^verbatim>\<open>obj\<close> has for it, \<^verbatim>\<open>null\<close> where it has
  none. \<^verbatim>\<open>set\<close> appends the name to \<^verbatim>\<open>keys\<close> unless it is there and binds it in
  \<^verbatim>\<open>obj\<close>; \<^verbatim>\<open>remove\<close> deletes the first occurrence of the name from \<^verbatim>\<open>keys\<close> and
  the name from \<^verbatim>\<open>obj\<close>. With \<^verbatim>\<open>EnsurePathExistsOnAdd\<close> the library first creates the
  containers on the way to the member, of which a path of one token has none.
\<close>

record partialDoc =
  pd_keys :: "string list"
  pd_obj :: "string \<rightharpoonup> json"

definition decodeDoc :: "(string \<times> json) list \<Rightarrow> partialDoc" where
  "decodeDoc members = \<lparr>pd_keys = map fst members, pd_obj = map_of (rev members)\<rparr>"

definition MarshalJSON :: "partialDoc \<Rightarrow> json" where
  "MarshalJSON d =
     JObject (map (\<lambda>k. (k, case pd_obj d k of None \<Rightarrow> JNull | Some v \<Rightarrow> v)) (pd_keys d))"

definition pd_set :: "string \<Rightarrow> json \<Rightarrow> partialDoc \<Rightarrow> partialDoc" where
  "pd_set key val d =
     \<lparr>pd_keys = (if key \<in> set (pd_keys d) then pd_keys d else pd_keys d @ [key]),
      pd_obj = (pd_obj d)(key \<mapsto> val)\<rparr>"

definition pd_remove :: "string \<Rightarrow> ApplyOptions \<Rightarrow> partialDoc \<Rightarrow> patch_error + partialDoc" where
  "pd_remove key options d =
     (case pd_obj d key of
        None \<Rightarrow> if AllowMissingPathOnRemove options then Inr d else Inl ErrMissing
      | Some v \<Rightarrow> Inr \<lparr>pd_keys = remove1 key (pd_keys d), pd_obj = (pd_obj d)(key := None)\<rparr>)"

type_synonym nested_patch = "ApplyOptions \<Rightarrow> JSONPatchOperationObject \<Rightarrow> json \<Rightarrow> patch_error + json"

definition top_level_op ::
  "ApplyOptions \<Rightarrow> JSONPatchOperationObject \<Rightarrow> string \<Rightarrow> (string \<times> json) list
     \<Rightarrow> patch_error + json" where
  "top_level_op applyOpt operation key members =
     (case operation of
        NewAdd p v \<Rightarrow> Inr (MarshalJSON (pd_set key v (decodeDoc members)))
      | NewRemove p \<Rightarrow>
          (case pd_remove key applyOpt (decodeDoc members) of
             Inl e \<Rightarrow> Inl e
           | Inr d \<Rightarrow> Inr (MarshalJSON d)))"

definition ApplyWithOptions ::
  "nested_patch \<Rightarrow> json \<Rightarrow> ApplyOptions \<Rightarrow> JSONPatchOperationObject \<Rightarrow> patch_error + json" where
  "ApplyWithOptions nested doc applyOpt operation =
     (case (doc, split_slash (op_path operation)) of
        (JObject members, [lead, key]) \<Rightarrow>
          if lead = [] then top_level_op applyOpt operation (decodePatchKey key) members
          else nested applyOpt operation doc
      | _ \<Rightarrow> nested applyOpt operation doc)"

text \<open>
  \<^verbatim>\<open>modifyBufferBodyAndParsed\<close>, called with one operation: a nil \<^verbatim>\<open>*bytes.Buffer\<close>
  is \<open>None\<close>, and calling \<^verbatim>\<open>Bytes\<close> on it panics. Decoding the patch built from an
  operation object does not fail. On success the new buffer and its parse are returned.
\<close>

definition modifyBufferBodyAndParsed ::
  "nested_patch \<Rightarrow> json option \<Rightarrow> ApplyOptions option \<Rightarrow> JSONPatchOperationObject
     \<Rightarrow> (patch_error + json \<times> (string \<rightharpoonup> json)) outcome" where
  "modifyBufferBodyAndParsed nested buffer applyOpt patch =
     (let applyOpt' = (case applyOpt of None \<Rightarrow> NewApplyOptions | Some opt \<Rightarrow> opt) in
      case buffer of
        None \<Rightarrow> Panicked
      | Some doc \<Rightarrow>
          (case ApplyWithOptions nested doc applyOpt' patch of
             Inl e \<Rightarrow> Returned (Inl e)
           | Inr patched \<Rightarrow>
               (case Unmarshal patched of
                  Inl e \<Rightarrow> Returned (Inl e)
                | Inr newParsed \<Rightarrow> Returned (Inr (patched, newParsed)))))"

record TextToSpeechRequest =
  tts_Model :: string
  tts_bodyParsed :: "string \<rightharpoonup> json"
  tts_bodyBuffer :: "json option"

text \<open>
  One patch applied to the request, as in
  \<^verbatim>\<open>r.bodyBuffer, r.bodyParsed, err = modifyBufferBodyAndParsed(...)\<close>: an error leaves
  both fields nil.
\<close>

definition patch_request ::
  "nested_patch \<Rightarrow> TextToSpeechRequest \<Rightarrow> ApplyOptions option \<Rightarrow> JSONPatchOperationObject
     \<Rightarrow> (patch_error option \<times> TextToSpeechRequest) outcome" where
  "patch_request nested r applyOpt patch =
     (case modifyBufferBodyAndParsed nested (tts_bodyBuffer r) applyOpt patch of
        Panicked \<Rightarrow> Panicked
      | Returned (Inl e) \<Rightarrow>
          Returned (Some e, r\<lparr>tts_bodyBuffer := None, tts_bodyParsed := Map.empty\<rparr>)
      | Returned (Inr (buffer, parsed)) \<Rightarrow>
          Returned (None, r\<lparr>tts_bodyBuffer := Some buffer, tts_bodyParsed := parsed\<rparr>))"

text \<open>The model field follows a string \<^verbatim>\<open>model\<close> member of the parsed body.\<close>

definition changedModel :: "TextToSpeechRequest \<Rightarrow> TextToSpeechRequest" where
  "changedModel r =
     (case tts_bodyParsed r ''model'' of
        Some (JString model) \<Rightarrow> if tts_Model r \<noteq> model then r\<lparr>tts_Model := model\<rparr> else r
      | _ \<Rightarrow> r)"

text \<open>
  The parameters are a Go map, given here as the list of its entries in the order the
  \<^verbatim>\<open>range\<close> loop visits them. Each function returns the error (\<open>None\<close> for nil) and
  the request as it leaves it.
\<close>

fun defaultLoop ::
  "nested_patch \<Rightarrow> TextToSpeechRequest \<Rightarrow> (string \<times> json) list
     \<Rightarrow> (patch_error option \<times> TextToSpeechRequest) outcome" where
  "defaultLoop nested r [] = Returned (None, r)"
| "defaultLoop nested r ((k, v) # params) =
     (if k \<in> dom (tts_bodyParsed r) then defaultLoop nested r params
      else case patch_request nested r None (NewAdd (''/'' @ k) v) of
          Panicked \<Rightarrow> Panicked
        | Returned (Some e, r') \<Rightarrow> Returned (Some e, r')
        | Returned (None, r') \<Rightarrow> defaultLoop nested r' params)"

definition SetDefaultParams ::
  "nested_patch \<Rightarrow> TextToSpeechRequest \<Rightarrow> (string \<times> json) list
     \<Rightarrow> (patch_error option \<times> TextToSpeechRequest) outcome" where
  "SetDefaultParams nested r params =
     (case defaultLoop nested r params of
        Returned (None, r') \<Rightarrow> Returned (None, changedModel r')
      | other \<Rightarrow> other)"

fun overrideLoop ::
  "nested_patch \<Rightarrow> TextToSpeechRequest \<Rightarrow> (string \<times> json) list
     \<Rightarrow> (patch_error option \<times> TextToSpeechRequest) outcome" where
  "overrideLoop nested r [] = Returned (None, r)"
| "overrideLoop nested r ((k, v) # params) =
     (case patch_request nested r
             (Some (NewApplyOptions\<lparr>EnsurePathExistsOnAdd := True\<rparr>)) (NewAdd (''/'' @ k) v) of
        Panicked \<Rightarrow> Panicked
      | Returned (Some e, r') \<Rightarrow> Returned (Some e, r')
      | Returned (None, r') \<Rightarrow> overrideLoop nested r' params)"

definition SetOverrideParams ::
  "nested_patch \<Rightarrow> TextToSpeechRequest \<Rightarrow> (string \<times> json) list
     \<Rightarrow> (patch_error option \<times> TextToSpeechRequest) outcome" where
  "SetOverrideParams nested r params =
     (case overrideLoop nested r params of
        Returned (None, r') \<Rightarrow> Returned (None, changedModel r')
      | other \<Rightarrow> other)"

fun RemoveParamKeys ::
  "nested_patch \<Rightarrow> TextToSpeechRequest \<Rightarrow> string list
     \<Rightarrow> (patch_error option \<times> TextToSpeechRequest) outcome" where
  "RemoveParamKeys nested r [] = Returned (None, r)"
| "RemoveParamKeys nested r (v # keys) =
     (case patch_request nested r
             (Some (NewApplyOptions\<lparr>AllowMissingPathOnRemove := True\<rparr>)) (NewRemove (''/'' @ v)) of
        Panicked \<Rightarrow> Panicked
      | Returned (Some e, r') \<Rightarrow> Returned (Some e, r')
      | Returned (None, r') \<Rightarrow> RemoveParamKeys nested r' keys)"

text \<open>
  The invariant of the request record: the buffer re-parses to the parsed mapping. A key
  is plain when the pointer \<^verbatim>\<open>"/" + key\<close> names the top-level member of that very name.
\<close>

definition consistent :: "TextToSpeechRequest \<Rightarrow> bool" where
  "consistent r =
     (case tts_bodyBuffer r of
        None \<Rightarrow> False
      | Some doc \<Rightarrow> Unmarshal doc = Inr (tts_bodyParsed r))"

definition object_body :: "TextToSpeechRequest \<Rightarrow> bool" where
  "object_body r = (case tts_bodyBuffer r of Some (JObject members) \<Rightarrow> True | _ \<Rightarrow> False)"

definition plain_key :: "string \<Rightarrow> bool" where
  "plain_key k = (CHR ''/'' \<notin> set k \<and> CHR ''~'' \<notin> set k)"

text \<open>\<^verbatim>\<open>NewTextToSpeechRequest\<close> on a body that parsed to the given object.\<close>

definition NewTextToSpeechRequest :: "(string \<times> json) list \<Rightarrow> TextToSpeechRequest" where
  "NewTextToSpeechRequest members =
     \<lparr>tts_Model = (case map_of (rev members) ''model'' of Some (JString m) \<Rightarrow> m | _ \<Rightarrow> ''''),
      tts_bodyParsed = map_of (rev members),
      tts_bodyBuffer = Some (JObject members)\<rparr>"

definition no_nested :: nested_patch where
  "no_nested applyOpt operation doc = Inl OtherPatchError"

text \<open>No member name occurs twice in the body.\<close>

definition distinct_names :: "TextToSpeechRequest \<Rightarrow> bool" where
  "distinct_names r =
     (case tts_bodyBuffer r of Some (JObject members) \<Rightarrow> distinct (map fst members) | _ \<Rightarrow> True)"

text \<open>
  The request holds the object with the given members, no name twice, buffer and parse
  agreeing.
\<close>

definition holds_object :: "TextToSpeechRequest \<Rightarrow> (string \<times> json) list \<Rightarrow> bool" where
  "holds_object r ms =
     (tts_bodyBuffer r = Some (JObject ms) \<and> tts_bodyParsed r = map_of ms \<and> distinct (map fst ms))"

text \<open>What a mutation returned: the error and the buffer it left, \<open>None\<close> after a panic.\<close>

definition returned_body ::
  "(patch_error option \<times> TextToSpeechRequest) outcome \<Rightarrow> (patch_error option \<times> json option) option" where
  "returned_body out =
     (case out of Panicked \<Rightarrow> None | Returned (e, r) \<Rightarrow> Some (e, tts_bodyBuffer r))"

text \<open>Example requests.\<close>

definition slash_member_request :: TextToSpeechRequest where
  "slash_member_request = NewTextToSpeechRequest [(''a/b'', JNumber 1)]"

definition plain_request :: TextToSpeechRequest where
  "plain_request = NewTextToSpeechRequest [(''model'', JString ''gpt''), (''stream'', JBool False)]"

section \<open>Results: error taxonomy\<close>

lemmas http_status_defs =
  StatusBadRequest_def StatusUnauthorized_def StatusPaymentRequired_def StatusForbidden_def
  StatusNotFound_def StatusTooManyRequests_def StatusInternalServerError_def
  StatusBadGateway_def StatusServiceUnavailable_def

lemmas error_code_defs =
  LLMErrorCodeModelNotFoundOrNotAccessible_def LLMErrorCodeModelAccessDenied_def
  LLMErrorCodeRateLimitExceeded_def LLMErrorCodeInsufficientQuota_def
  LLMErrorCodeMissingAPIKey_def LLMErrorCodeIncorrectAPIKey_def LLMErrorCodeMissingModel_def
  LLMErrorCodeServiceUnavailable_def LLMErrorCodeInternalError_def LLMErrorCodeBadGateway_def

lemmas error_constructor_defs =
  NewErrorModelNotFoundOrNotAccessible_def NewErrorModelAccessDenied_def
  NewErrorRateLimitExceeded_def NewErrorInsufficientQuota_def NewErrorMissingAPIKey_def
  NewErrorIncorrectAPIKey_def NewErrorMissingModel_def NewErrorInternalError_def
  NewErrorBadGateway_def NewErrorServiceUnavailable_def

lemma NewErrorMissingModel_status: "GetStatus NewErrorMissingModel = 404"
  by (simp add: GetStatus_def NewErrorMissingModel_def StatusNotFound_def)

text \<open>
  C2, as stated, fails: the code string carried by the rate-limit error is
  \<^verbatim>\<open>model_rate_limit_exceeded\<close>, not \<^verbatim>\<open>rate_limit_exceeded\<close>.
\<close>

theorem C2_rate_limit_code_counterexample:
  "GetCode NewErrorRateLimitExceeded \<noteq> ''rate_limit_exceeded''"
  by (simp add: GetCode_def NewErrorRateLimitExceeded_def LLMErrorCodeRateLimitExceeded_def)

text \<open>
  C2 (amended): every constructor of the taxonomy carries the status and the code string of
  the mapping, where the rate-limit code string is \<^verbatim>\<open>model_rate_limit_exceeded\<close>:
  model_not_found 404, model_access_denied 403, rate limit 429, insufficient_quota 402,
  missing and incorrect api_key 401, internal_error 500, bad_gateway 502,
  service_unavailable 503; the missing_model error carries the code string
  \<^verbatim>\<open>missing_model\<close> (nothing is stated about its status).
\<close>

theorem C2_error_constructors_status_and_code:
  "GetStatus (NewErrorModelNotFoundOrNotAccessible m) = 404
   \<and> GetCode (NewErrorModelNotFoundOrNotAccessible m) = ''model_not_found''
   \<and> GetStatus (NewErrorModelAccessDenied m) = 403
   \<and> GetCode (NewErrorModelAccessDenied m) = ''model_access_denied''
   \<and> GetStatus NewErrorRateLimitExceeded = 429
   \<and> GetCode NewErrorRateLimitExceeded = ''model_rate_limit_exceeded''
   \<and> GetStatus NewErrorInsufficientQuota = 402
   \<and> GetCode NewErrorInsufficientQuota = ''insufficient_quota''
   \<and> GetStatus NewErrorMissingAPIKey = 401
   \<and> GetCode NewErrorMissingAPIKey = ''missing_api_key''
   \<and> GetStatus (NewErrorIncorrectAPIKey k) = 401
   \<and> GetCode (NewErrorIncorrectAPIKey k) = ''incorrect_api_key''
   \<and> GetCode NewErrorMissingModel = ''missing_model''
   \<and> GetStatus (NewErrorInternalError es) = 500
   \<and> GetCode (NewErrorInternalError es) = ''internal_error''
   \<and> GetStatus (NewErrorBadGateway u) = 502
   \<and> GetCode (NewErrorBadGateway u) = ''bad_gateway''
   \<and> GetStatus NewErrorServiceUnavailable = 503
   \<and> GetCode NewErrorServiceUnavailable = ''service_unavailable''"
  by (simp add: GetStatus_def GetCode_def error_constructor_defs http_status_defs error_code_defs)

section \<open>Results: model access control\<close>

lemma IsDenied_iff:
  "IsDenied glob m deny \<longleftrightarrow> (\<exists>rule \<in> set deny. glob rule m = Some True)"
  by (auto simp: IsDenied_def list_ex_iff rule_matches_def split: option.splits)

text \<open>
  C10: with an empty allow list the key is granted for every model, so access is permitted
  exactly when no deny rule glob-matches the model; with both lists empty every model is
  accessible; and a matching deny rule overrides any grant.
\<close>

theorem C10_empty_allow_list_grants_all:
  "(CanAccessModel glob m [] deny \<longleftrightarrow> \<not> (\<exists>rule \<in> set deny. glob rule m = Some True))
   \<and> CanAccessModel glob m [] []
   \<and> ((\<exists>rule \<in> set deny. glob rule m = Some True) \<longrightarrow> \<not> CanAccessModel glob m allow deny)"
  by (simp add: CanAccessModel_def CanAccessModelFromValues_def IsDenied_iff IsGranted_def)

theorem C10_empty_allow_list_grants_all_witness:
  "CanAccessModel literal_glob ''gpt-4'' [] [''gpt-3'']
   \<and> \<not> CanAccessModel literal_glob ''gpt-4'' [] [''gpt-3'', ''gpt-4'']
   \<and> CanAccessModel literal_glob ''gpt-4'' [] []
   \<and> \<not> CanAccessModel literal_glob ''gpt-4'' [''gpt-4''] [''gpt-3'', ''gpt-4'']"
  using C10_empty_allow_list_grants_all [of literal_glob "''gpt-4''" "[''gpt-3'']" "[]"]
    C10_empty_allow_list_grants_all [of literal_glob "''gpt-4''" "[''gpt-3'', ''gpt-4'']" "[''gpt-4'']"]
  by (simp add: literal_glob_def)

section \<open>Results: weighted least request\<close>

lemma Desc_identity: "Desc m = m"
  by (simp add: Desc_def)

text \<open>
  C6: \<^verbatim>\<open>Next\<close> increments the counter of the selected target, but \<^verbatim>\<open>Done\<close> does not
  decrement it: \<^verbatim>\<open>Desc\<close> ANDs the counter with \<open>-1\<close>, which changes nothing
  (\<open>Desc_identity\<close>). On a fresh balancer with two targets of weight 1, \<^verbatim>\<open>Next\<close> selects
  a and leaves its counter at 1; the following \<^verbatim>\<open>Done\<close> returns the same state, the
  counter still at 1.
\<close>

theorem C6_Done_leaves_counter_unchanged:
  "WLR_Next (NewWeightedLeastRequest [(''a'', 1), (''b'', 1)]) = Returned (wlr_busy, ''a'')
   \<and> map (\<lambda>s. Current (requestCounter s)) (wlr_servers wlr_busy) = [1, 0]
   \<and> WLR_Done wlr_busy = Returned wlr_busy"
  by (simp add: WLR_Next_def WLR_Done_def NewWeightedLeastRequest_def newServers_def wlr_busy_def
      Desc_def Inc_def Current_def Less_def fdiv_def Let_def upt_rec)

text \<open>With a single target \<^verbatim>\<open>Next\<close> returns its name before any counter is touched.\<close>

lemma WLR_Next_single_target:
  "WLR_Next (NewWeightedLeastRequest [(''a'', 1)]) = Returned (NewWeightedLeastRequest [(''a'', 1)], ''a'')"
  by (simp add: WLR_Next_def NewWeightedLeastRequest_def newServers_def)

section \<open>Results: weighted round robin\<close>

lemma sum_list_rotate: "sum_list (rotate n (ws :: int list)) = sum_list ws"
proof -
  have "sum_list (rotate n ws) = sum_list (drop (n mod length ws) ws) + sum_list (take (n mod length ws) ws)"
    by (simp add: rotate_drop_take)
  also have "\<dots> = sum_list (take (n mod length ws) ws @ drop (n mod length ws) ws)"
    by (simp only: sum_list_append add.commute)
  finally show ?thesis by simp
qed

lemma visited_weight_all:
  "visited_weight srvs cur (length srvs) = sum_list (map weight srvs)"
proof -
  have "visited_weight srvs cur (length srvs)
        = (\<Sum>i<length srvs. rotate cur (map weight srvs) ! i)"
    unfolding visited_weight_def
  proof (rule sum.cong)
    fix i assume "i \<in> {..<length srvs}"
    then have "0 < length srvs" by auto
    then have "(cur + i) mod length srvs < length srvs" by (rule mod_less_divisor)
    then show "weight (srvs ! ((cur + i) mod length srvs)) = rotate cur (map weight srvs) ! i"
      using \<open>i \<in> {..<length srvs}\<close> by (simp add: nth_rotate)
  qed simp
  also have "\<dots> = sum_list (rotate cur (map weight srvs))"
    by (simp add: sum_list_sum_nth atLeast0LessThan)
  finally show ?thesis
    by (simp add: sum_list_rotate)
qed

lemma wrrScan_finds:
  "srvs \<noteq> [] \<Longrightarrow> i \<le> length srvs \<Longrightarrow> tot = visited_weight srvs cur i
   \<Longrightarrow> (\<forall>j<i. visited_weight srvs cur (Suc j) \<le> r)
   \<Longrightarrow> r < visited_weight srvs cur (length srvs)
   \<Longrightarrow> \<exists>k<length srvs. wrrScan srvs cur r i tot = Some ((cur + k) mod length srvs)
         \<and> r < visited_weight srvs cur (Suc k)
         \<and> (\<forall>j<k. visited_weight srvs cur (Suc j) \<le> r)"
proof (induction srvs cur r i tot rule: wrrScan.induct)
  case (1 srvs cur r i tot)
  show ?case
  proof (cases "i < length srvs")
    case False
    with 1 have i: "i = length srvs" by simp
    have False
    proof (cases i)
      case 0
      with i "1.prems"(1) show False by simp
    next
      case (Suc n)
      with i "1.prems"(4)[rule_format, of n] "1.prems"(5) show False by simp
    qed
    then show ?thesis ..
  next
    case True
    let ?idx = "(cur + i) mod length srvs"
    let ?tot' = "tot + weight (srvs ! ?idx)"
    have tot': "?tot' = visited_weight srvs cur (Suc i)"
      using "1.prems"(3) by (simp add: visited_weight_def)
    show ?thesis
    proof (cases "r < ?tot'")
      case True
      with \<open>i < length srvs\<close> tot' "1.prems"(4) show ?thesis
        by (subst wrrScan.simps) (auto simp: Let_def intro!: exI[of _ i])
    next
      case False
      have "\<forall>j<Suc i. visited_weight srvs cur (Suc j) \<le> r"
        using False tot' "1.prems"(4) by (auto simp: less_Suc_eq)
      with "1.IH"[OF True refl refl False "1.prems"(1) _ tot' _ "1.prems"(5)] True
      obtain k where "k < length srvs"
        "wrrScan srvs cur r (Suc i) ?tot' = Some ((cur + k) mod length srvs)"
        "r < visited_weight srvs cur (Suc k)" "\<forall>j<k. visited_weight srvs cur (Suc j) \<le> r"
        by auto
      with True False show ?thesis
        by (subst wrrScan.simps) (auto simp: Let_def)
    qed
  qed
qed


text \<open>
  What \<^verbatim>\<open>Next\<close> does whenever the draw does not panic: the empty string for an empty
  target list and when the read of the entropy source fails, the sole target's name for a
  single target, and otherwise, for a draw \<open>r\<close> in \<open>[0, total weight)\<close>, the first target
  in the scan from the current index whose cumulative weight exceeds \<open>r\<close>; the current
  index becomes the index after that target, modulo the number of targets.
\<close>

lemma WRR_Next_cases:
  "(wrr_servers w = [] \<longrightarrow> WRR_Next entropy w = Returned (w, ''''))
   \<and> (\<forall>s. wrr_servers w = [s] \<longrightarrow> WRR_Next entropy w = Returned (w, name s))
   \<and> (2 \<le> length (wrr_servers w) \<and> rand_Int entropy (calculateTotalWeight w) = DrawErr
        \<longrightarrow> WRR_Next entropy w = Returned (w, ''''))
   \<and> (\<forall>r. 2 \<le> length (wrr_servers w) \<and> rand_Int entropy (calculateTotalWeight w) = DrawOk r
          \<and> 0 \<le> r \<and> r < calculateTotalWeight w
        \<longrightarrow> (\<exists>k<length (wrr_servers w).
              (\<forall>j<k. visited_weight (wrr_servers w) (wrr_current w) (Suc j) \<le> r)
              \<and> r < visited_weight (wrr_servers w) (wrr_current w) (Suc k)
              \<and> WRR_Next entropy w =
                  Returned (w\<lparr>wrr_current := (wrr_current w + k + 1) mod length (wrr_servers w)\<rparr>,
                            name (wrr_servers w ! ((wrr_current w + k) mod length (wrr_servers w))))))"
proof (intro conjI allI impI)
  show "WRR_Next entropy w = Returned (w, '''')" if "wrr_servers w = []"
    using that by (simp add: WRR_Next_def)
next
  fix s assume "wrr_servers w = [s]"
  then show "WRR_Next entropy w = Returned (w, name s)"
    by (simp add: WRR_Next_def)
next
  assume "2 \<le> length (wrr_servers w) \<and> rand_Int entropy (calculateTotalWeight w) = DrawErr"
  then show "WRR_Next entropy w = Returned (w, '''')"
    by (simp add: WRR_Next_def Let_def)
next
  fix r
  let ?srvs = "wrr_servers w" and ?cur = "wrr_current w"
  assume a: "2 \<le> length ?srvs \<and> rand_Int entropy (calculateTotalWeight w) = DrawOk r
    \<and> 0 \<le> r \<and> r < calculateTotalWeight w"
  then have ne: "?srvs \<noteq> []" by auto
  have "r < visited_weight ?srvs ?cur (length ?srvs)"
    using a by (simp add: visited_weight_all calculateTotalWeight_def)
  from wrrScan_finds[OF ne _ _ _ this, of 0 0]
  obtain k where k: "k < length ?srvs"
    "wrrScan ?srvs ?cur r 0 0 = Some ((?cur + k) mod length ?srvs)"
    "r < visited_weight ?srvs ?cur (Suc k)"
    "\<forall>j<k. visited_weight ?srvs ?cur (Suc j) \<le> r"
    by (auto simp: visited_weight_def)
  have lt: "(?cur + k) mod length ?srvs < length ?srvs"
    using ne by simp
  have "WRR_Next entropy w =
        Returned (w\<lparr>wrr_current := (?cur + k + 1) mod length ?srvs\<rparr>,
                  name (?srvs ! ((?cur + k) mod length ?srvs)))"
  proof -
    from a have len: "length ?srvs \<noteq> 0" "length ?srvs \<noteq> 1"
      and dr: "rand_Int entropy (calculateTotalWeight w) = DrawOk r" by auto
    show ?thesis
      unfolding WRR_Next_def Let_def using len dr k(2) lt by (simp add: mod_Suc_eq not_le)
  qed
  with k show "\<exists>k<length ?srvs.
      (\<forall>j<k. visited_weight ?srvs ?cur (Suc j) \<le> r)
      \<and> r < visited_weight ?srvs ?cur (Suc k)
      \<and> WRR_Next entropy w =
          Returned (w\<lparr>wrr_current := (?cur + k + 1) mod length ?srvs\<rparr>,
                    name (?srvs ! ((?cur + k) mod length ?srvs)))"
    by blast
qed

lemma WRR_Next_cases_example:
  "WRR_Next (\<lambda>mx. Some 25) \<lparr>wrr_servers = [], wrr_current = 0\<rparr>
     = Returned (\<lparr>wrr_servers = [], wrr_current = 0\<rparr>, '''')
   \<and> WRR_Next (\<lambda>mx. Some 25) \<lparr>wrr_servers = newServers [(''a'', 10)], wrr_current = 0\<rparr>
     = Returned (\<lparr>wrr_servers = newServers [(''a'', 10)], wrr_current = 0\<rparr>, ''a'')
   \<and> WRR_Next (\<lambda>mx. None) wrr_three = Returned (wrr_three, '''')
   \<and> (\<exists>k<length (wrr_servers wrr_three).
         (\<forall>j<k. visited_weight (wrr_servers wrr_three) (wrr_current wrr_three) (Suc j) \<le> 25)
         \<and> 25 < visited_weight (wrr_servers wrr_three) (wrr_current wrr_three) (Suc k)
         \<and> WRR_Next (\<lambda>mx. Some 25) wrr_three =
             Returned (wrr_three\<lparr>wrr_current :=
                         (wrr_current wrr_three + k + 1) mod length (wrr_servers wrr_three)\<rparr>,
                       name (wrr_servers wrr_three !
                         ((wrr_current wrr_three + k) mod length (wrr_servers wrr_three)))))"
proof -
  have empty: "wrr_servers \<lparr>wrr_servers = [], wrr_current = 0\<rparr> = []"
    by simp
  have single: "wrr_servers \<lparr>wrr_servers = newServers [(''a'', 10)], wrr_current = 0\<rparr>
      = [\<lparr>name = ''a'', weight = 10, requestCounter = 0\<rparr>]"
    by (simp add: newServers_def)
  have failed: "2 \<le> length (wrr_servers wrr_three)
      \<and> rand_Int (\<lambda>mx. None) (calculateTotalWeight wrr_three) = DrawErr"
    by (simp add: wrr_three_def newServers_def rand_Int_def calculateTotalWeight_def)
  have drawn: "2 \<le> length (wrr_servers wrr_three)
      \<and> rand_Int (\<lambda>mx. Some 25) (calculateTotalWeight wrr_three) = DrawOk 25
      \<and> (0::int) \<le> 25 \<and> 25 < calculateTotalWeight wrr_three"
    by (simp add: wrr_three_def newServers_def rand_Int_def calculateTotalWeight_def)
  show ?thesis
    using WRR_Next_cases [of "\<lparr>wrr_servers = [], wrr_current = 0\<rparr>" "\<lambda>mx. Some 25"]
      WRR_Next_cases [of "\<lparr>wrr_servers = newServers [(''a'', 10)], wrr_current = 0\<rparr>" "\<lambda>mx. Some 25"]
      WRR_Next_cases [of wrr_three "\<lambda>mx. None"]
      WRR_Next_cases [of wrr_three "\<lambda>mx. Some 25"]
      empty single failed drawn
    by (metis server.select_convs(1))
qed

lemma WRR_Next_nonpositive_total:
  assumes "2 \<le> length (wrr_servers w)" and "calculateTotalWeight w \<le> 0"
  shows "WRR_Next entropy w = Panicked"
proof -
  from assms(1) have "length (wrr_servers w) \<noteq> 0" "length (wrr_servers w) \<noteq> 1"
    by auto
  with assms(2) show ?thesis
    by (simp add: WRR_Next_def rand_Int_def Let_def)
qed

text \<open>
  C7 holds of every balancer whose total weight is positive, and fails to hold of the code
  where the total weight is 0: with the two targets of weight 0, \<^verbatim>\<open>Next\<close> does not return
  the empty string nor a target. \<^verbatim>\<open>rand.Int\<close> is asked for a number below 0 and panics,
  whatever the entropy source holds; the function guards the empty list, the single target
  and the error of the draw, and misses this case.
\<close>

theorem C7_zero_total_weight_panics: "WRR_Next entropy wrr_zero_weights = Panicked"
  by (simp add: WRR_Next_def wrr_zero_weights_def newServers_def rand_Int_def
      calculateTotalWeight_def)

section \<open>Results: route matching\<close>

text \<open>
  C4, as stated, fails: an entry with a prefix never binds. A route with targets whose only
  entry has the prefix \<^verbatim>\<open>gpt\<close> does not match a request for \<^verbatim>\<open>gpt-4\<close>.
\<close>

theorem C4_prefix_entry_counterexample: "spec_Match prefix_route gpt4_request \<and> \<not> Match prefix_route gpt4_request"
  by (simp add: spec_Match_def Match_def prefix_route_def gpt4_request_def NewWithConfig_def
      InitDirectModelRoute_def GetTargets_def GetMatches_def)

lemma matchLoop_iff:
  "matchLoop m request ms \<longleftrightarrow>
     GetTargets m \<noteq> [] \<and>
     (\<exists>match \<in> set ms. \<exists>e. Model match = Some (Exact e) \<and> e \<noteq> '''' \<and> req_Model request = e)"
proof (induction ms)
  case Nil
  then show ?case by simp
next
  case (Cons match rest)
  show ?case
  proof (cases "Model match")
    case None
    with Cons show ?thesis by auto
  next
    case (Some sm)
    with Cons show ?thesis
      by (cases sm) (auto simp: Let_def)
  qed
qed

text \<open>
  C4 (amended): \<^verbatim>\<open>Match\<close> returns true if and only if the route has at least one target
  and some match entry carries a non-empty \<^verbatim>\<open>model.exact\<close> string equal to the request's
  model; a route whose target list is empty is always rejected.
\<close>

theorem C4_Match_iff_exact_entry:
  "(Match m request \<longleftrightarrow>
      GetTargets m \<noteq> [] \<and>
      (\<exists>match \<in> set (GetMatches m). \<exists>e. Model match = Some (Exact e) \<and> e \<noteq> ''''
          \<and> req_Model request = e))
   \<and> (GetTargets m = [] \<longrightarrow> \<not> Match m request)"
  by (auto simp: Match_def Let_def matchLoop_iff)

theorem C4_Match_iff_exact_entry_witness:
  "Match (NewWithConfig (InitDirectModelRoute ''gpt-4'')) gpt4_request
   \<and> \<not> Match (NewWithConfig ((InitDirectModelRoute ''gpt-4'')\<lparr>Targets := []\<rparr>)) gpt4_request"
  using C4_Match_iff_exact_entry [of "NewWithConfig (InitDirectModelRoute ''gpt-4'')" gpt4_request]
    C4_Match_iff_exact_entry [of "NewWithConfig ((InitDirectModelRoute ''gpt-4'')\<lparr>Targets := []\<rparr>)" gpt4_request]
  by (simp add: NewWithConfig_def InitDirectModelRoute_def GetTargets_def GetMatches_def gpt4_request_def)

section \<open>Results: route registry\<close>

lemma uniqueRoutes_map_add: "uniqueRoutes mr br = br ++ mr"
  by (auto simp: uniqueRoutes_def map_add_def split: option.splits)

lemma set_Values: "iteration_order order m \<Longrightarrow> set (Values order m) = ran m"
  by (force simp: iteration_order_def Values_def ran_def dom_def)

lemma MatchRoute_None: "MatchRoute rs req = None \<longleftrightarrow> (\<forall>r \<in> set rs. \<not> Match r req)"
  by (induction rs) auto

lemma MatchRoute_skips:
  "\<forall>x \<in> set pre. \<not> Match x req \<Longrightarrow> Match r req \<Longrightarrow> MatchRoute (pre @ r # post) req = Some r"
  by (induction pre) auto

lemma MatchRoute_first:
  "MatchRoute rs req = Some r \<Longrightarrow>
     \<exists>pre post. rs = pre @ r # post \<and> Match r req \<and> (\<forall>x \<in> set pre. \<not> Match x req)"
proof (induction rs)
  case Nil
  then show ?case by simp
next
  case (Cons a rs)
  show ?case
  proof (cases "Match a req")
    case True
    with Cons.prems have "a = r" by simp
    with True have "a # rs = [] @ r # rs \<and> Match r req \<and> (\<forall>x \<in> set []. \<not> Match x req)"
      by simp
    then show ?thesis by blast
  next
    case False
    with Cons obtain pre post where
      "rs = pre @ r # post" "Match r req" "\<forall>x \<in> set pre. \<not> Match x req"
      by auto
    with False have "a # rs = (a # pre) @ r # post \<and> Match r req
        \<and> (\<forall>x \<in> set (a # pre). \<not> Match x req)"
      by simp
    then show ?thesis by blast
  qed
qed

lemma MatchRoute_Some:
  "MatchRoute rs req = Some r \<longleftrightarrow>
     (\<exists>pre post. rs = pre @ r # post \<and> Match r req \<and> (\<forall>x \<in> set pre. \<not> Match x req))"
  using MatchRoute_first MatchRoute_skips by blast

text \<open>
  C5, as stated, fails: the order of the effective list is the iteration order of a Go map,
  not an order fixed by registration. For the same two registered match-routes, both
  serving \<^verbatim>\<open>gpt-4\<close>, either order may be produced, and \<^verbatim>\<open>MatchRoute\<close> returns a
  different route for each.
\<close>

theorem C5_iteration_order_counterexample:
  "iteration_order [''a'', ''b''] (uniqueRoutes two_routes Map.empty)
   \<and> iteration_order [''b'', ''a''] (uniqueRoutes two_routes Map.empty)
   \<and> MatchRoute (mergeRoutes [''a'', ''b''] two_routes Map.empty) gpt4_request = Some route_a
   \<and> MatchRoute (mergeRoutes [''b'', ''a''] two_routes Map.empty) gpt4_request = Some route_b
   \<and> route_a \<noteq> route_b"
  by (auto simp: iteration_order_def uniqueRoutes_def two_routes_def mergeRoutes_def Values_def
      route_a_def route_b_def NewWithConfig_def InitDirectModelRoute_def Match_def GetMatches_def
      GetTargets_def gpt4_request_def dom_def split: if_splits)

text \<open>
  C5 (amended): for every iteration order taken by \<^verbatim>\<open>mergeRoutes\<close>, the effective list
  holds exactly the routes of the union of the two maps, match-routes winning over
  base-routes on name collision, and \<^verbatim>\<open>MatchRoute\<close> returns the first route of that list
  whose match-predicates satisfy the request (nil when none does).
\<close>

theorem C5_MatchRoute_first_of_merged:
  assumes "iteration_order order (uniqueRoutes mr br)"
  shows "set (mergeRoutes order mr br) = ran (br ++ mr)
    \<and> (MatchRoute (mergeRoutes order mr br) req = None \<longleftrightarrow> (\<forall>r \<in> ran (br ++ mr). \<not> Match r req))
    \<and> (\<forall>r. MatchRoute (mergeRoutes order mr br) req = Some r \<longleftrightarrow>
          (\<exists>pre post. mergeRoutes order mr br = pre @ r # post \<and> Match r req
              \<and> (\<forall>x \<in> set pre. \<not> Match x req)))"
  using assms set_Values[OF assms]
  by (simp add: mergeRoutes_def MatchRoute_None MatchRoute_Some uniqueRoutes_map_add)

theorem C5_MatchRoute_first_of_merged_witness:
  "iteration_order [''a'', ''b''] (uniqueRoutes two_routes Map.empty)
   \<and> MatchRoute (mergeRoutes [''a'', ''b''] two_routes Map.empty) gpt4_request \<noteq> None"
proof -
  have io: "iteration_order [''a'', ''b''] (uniqueRoutes two_routes Map.empty)"
    by (auto simp: iteration_order_def uniqueRoutes_def two_routes_def dom_def split: if_splits)
  have "route_a \<in> ran (Map.empty ++ two_routes)" "Match route_a gpt4_request"
    by (auto simp: two_routes_def ran_def route_a_def NewWithConfig_def InitDirectModelRoute_def
        Match_def GetMatches_def GetTargets_def gpt4_request_def)
  with C5_MatchRoute_first_of_merged [OF io, of gpt4_request] io show ?thesis by blast
qed

section \<open>Results: the fallback loop\<close>

text \<open>
  What holds of the loop: without a fallback block the first result is returned after a
  single cluster call, and with \<^verbatim>\<open>max_retries\<close> set the loop returns after at most
  \<^verbatim>\<open>max_retries + 1\<close> calls (3 + 1 when the value set is 0).
\<close>

lemma word_succ_unat: "(r :: 64 word) < M \<Longrightarrow> unat (r + 1) = Suc (unat r)"
proof -
  assume "r < M"
  then have "unat r < unat M" by (simp add: word_less_nat_alt)
  moreover have "unat M < 2 ^ 64" using unsigned_less [of M, where ?'a = nat] by simp
  ultimately have "unat r + unat (1 :: 64 word) < 2 ^ LENGTH(64)" by simp
  then have "unat (r + 1) = unat r + unat (1 :: 64 word)" by (simp only: unat_add_lem)
  then show ?thesis by simp
qed

lemma loop_returns_with_max_retries:
  assumes fb: "Fallback c = Some fb" and mr: "MaxRetries fb \<noteq> None"
    and nopanic: "LoadBalancePolicy c = LOAD_BALANCE_POLICY_UNSPECIFIED \<longrightarrow> Targets c \<noteq> []"
  shows "unat (CoalesceOrEmpty (GetMaxRetries fb) defaultRouteFallbackMaxRetries) - unat retried < fuel
    \<Longrightarrow> \<exists>res. fallbackLoop fuel c upstream pick retried n slept = Some (Returned res)
          \<and> calls res \<le> Suc n + (unat (CoalesceOrEmpty (GetMaxRetries fb) defaultRouteFallbackMaxRetries) - unat retried)"
proof (induction fuel arbitrary: retried n slept)
  case 0
  then show ?case by simp
next
  case (Suc fuel)
  let ?M = "CoalesceOrEmpty (GetMaxRetries fb) defaultRouteFallbackMaxRetries"
  show ?case
  proof (cases "?M \<le> retried")
    case True
    then show ?thesis
      using fb mr nopanic by (auto simp: Let_def split: prod.splits option.splits)
  next
    case False
    then have lt: "retried < ?M" by simp
    then have u: "unat (retried + 1) = Suc (unat retried)" by (rule word_succ_unat)
    from lt have "unat retried < unat ?M" by (simp add: word_less_nat_alt)
    with Suc.prems u have "unat ?M - unat (retried + 1) < fuel" by simp
    from Suc.IH[OF this] u \<open>unat retried < unat ?M\<close>
    have "\<exists>res. fallbackLoop fuel c upstream pick (retried + 1) (Suc n) sl = Some (Returned res)
          \<and> calls res \<le> Suc n + (unat ?M - unat retried)" for sl
      by (metis Suc_diff_Suc add_Suc_shift)
    then show ?thesis
      using fb mr nopanic False by (auto simp: Let_def split: prod.splits option.splits)
  qed
qed

lemma no_fallback_single_call:
  assumes "Fallback c = None"
    and "LoadBalancePolicy c = LOAD_BALANCE_POLICY_UNSPECIFIED \<longrightarrow> Targets c \<noteq> []"
  shows "\<exists>res. fallbackLoop (Suc fuel) c upstream pick 0 0 [] = Some (Returned res) \<and> calls res = 1
     \<and> (resp res, err res) = upstream 0 (if LoadBalancePolicy c = LOAD_BALANCE_POLICY_UNSPECIFIED
               then GetCluster (hd (Targets c)) else pick 0)"
  using assms by (auto simp: Let_def split: prod.splits)

lemma loop_unset_never_returns:
  "Fallback c = Some fb \<Longrightarrow> MaxRetries fb = None \<Longrightarrow> Targets c \<noteq> []
   \<Longrightarrow> fallbackLoop fuel c always_failing pick retried n slept = None"
  by (induction fuel arbitrary: n slept) (auto simp: always_failing_def Let_def)

text \<open>
  C1: the loop does not always terminate. When the fallback block is configured and
  \<^verbatim>\<open>max_retries\<close> is unset, the branch that counts retries is skipped, the default 3 is
  never consulted, and the loop starts over for as long as the cluster call fails: for a
  cluster whose every call fails, \<^verbatim>\<open>HandleRequest\<close> returns within no number of
  iterations.
\<close>

theorem C1_unset_max_retries_never_returns:
  "\<forall>fuel. HandleRequest fuel (fallback_route None) gpt4_request always_failing pick = None"
  by (simp add: HandleRequest_def fallback_route_def NewWithConfig_def requestFilters_def
     InitDirectModelRoute_def gpt4_request_def loop_unset_never_returns)

lemma HandleRequest_max_retries_two:
  "HandleRequest 3 (fallback_route (Some 2)) gpt4_request always_failing (\<lambda>n. '''') =
     Some (Returned \<lparr>resp = None, err = Some (OtherError ''bad gateway''), calls = 3, sleeps = []\<rparr>)"
  by code_simp

section \<open>Results: local token bucket\<close>

text \<open>
  C9, as stated, fails: with limit 10 and a window of 10 s, a key without a bucket is
  allowed ten requests at time 0 and one more at each of the following nine seconds: 19
  requests within 9 s, more than \<open>L + 1 = 11\<close>.
\<close>

theorem C9_burst_then_refill_counterexample:
  "last (map ev_now burst_then_steady) - hd (map ev_now burst_then_steady) \<le> 10 * second
   \<and> \<not> allowed ''k'' newShard burst_then_steady \<le> 10 + 1"
  by code_simp

text \<open>
  The lower bound of C9 fails as well: with limit 1 and a window of one hour the refill
  rate \<open>1000 / 3600\<close> truncates to 0 tokens per second, and under a request every ten
  minutes only the first one is ever allowed.
\<close>

lemma steady_demand_rate_zero:
  "verdicts newShard every_ten_minutes = (''k'', True) # replicate 18 (''k'', False)"
  by code_simp

text \<open>
  The rate is the float64 quotient truncated, which can be less than the quotient of the
  integers truncated: for limit 33 and a window of 1.1 s it is 29999, not 30000.
\<close>

lemma newRate_rounded:
  "newRate (33 * precision) (1100 * 1000000) = 29999
   \<and> 33 * precision * second div (1100 * 1000000) = 30000"
  by code_simp

text \<open>
  A call for a key without a bucket, on a full shard, deletes the bucket whose access time
  its loop finds the oldest: the bucket of another key, which then starts again with a
  full bucket.
\<close>

lemma other_call_evicts:
  assumes "maxBucketsPerShard \<le> length (buckets s)" and "map_of (buckets s) k = None"
    and "k \<noteq> key"
    and "oldestLoop (AList.update k now (lastAccessTime s)) order '''' now = key"
  shows "map_of (buckets (snd (checkBucketLocal order s k window limit now))) key = None"
  using assms
  by (simp add: checkBucketLocal_def initBucket_def evictOldestBucket_def Let_def
      update_conv' delete_conv' split: prod.splits)

lemma second_pos: "0 < second"
  by (simp add: second_def)

lemma div_superadd:
  fixes x y s :: int
  assumes "0 < s"
  shows "x div s + y div s \<le> (x + y) div s"
proof -
  have "(x div s + y div s) * s \<le> x + y"
  proof -
    have "x div s * s = x - x mod s" "y div s * s = y - y mod s"
      by (simp_all add: minus_mod_eq_div_mult)
    moreover have "0 \<le> x mod s" "0 \<le> y mod s"
      using assms by simp_all
    ultimately show ?thesis
      by (simp add: distrib_right)
  qed
  then have "((x div s + y div s) * s) div s \<le> (x + y) div s"
    using assms by (intro zdiv_mono1)
  then show ?thesis using assms by simp
qed

lemma tryConsume_unfold:
  assumes ex: "int64_of_float64 (Some (Seconds (now - lastUpdate b))) = e"
  shows "tryConsume b now =
     (let b1 = (if 0 < e * rate b
                then b\<lparr>tokens := min (tokens b + e * rate b) (capacity b), lastUpdate := now\<rparr>
                else b)
      in if precision \<le> tokens b1 then (True, b1\<lparr>tokens := tokens b1 - precision\<rparr>)
         else (False, b1))"
  by (simp only: tryConsume_def Let_def ex)

lemma tryConsume_facts:
  assumes tc: "tryConsume b now = (ok, b')"
    and ex: "int64_of_float64 (Some (Seconds (now - lastUpdate b))) = (now - lastUpdate b) div second"
    and lu: "lastUpdate b \<le> now" and nT: "now \<le> T"
    and t0: "0 \<le> tokens b" and tc_cap: "tokens b \<le> capacity b"
  shows "(if ok then precision else 0) + refill_potential b' T \<le> refill_potential b T"
    and "0 \<le> tokens b'" and "tokens b' \<le> capacity b'" and "lastUpdate b' \<le> now"
    and "rate b' = rate b" and "capacity b' = capacity b" and "oldLimit b' = oldLimit b"
    and "expireAt b' = expireAt b"
    and "lastUpdate b' = lastUpdate b \<or> lastUpdate b' = now"
proof -
  define e where "e = (now - lastUpdate b) div second"
  have e0: "0 \<le> e"
    using lu second_pos by (simp add: e_def pos_imp_zdiv_nonneg_iff)
  define b1 where "b1 = (if 0 < e * rate b
      then b\<lparr>tokens := min (tokens b + e * rate b) (capacity b), lastUpdate := now\<rparr> else b)"
  have "tryConsume b now = (if precision \<le> tokens b1
      then (True, b1\<lparr>tokens := tokens b1 - precision\<rparr>) else (False, b1))"
    using tryConsume_unfold [OF ex] by (simp only: Let_def b1_def e_def)
  with tc have res: "(ok, b') = (if precision \<le> tokens b1
      then (True, b1\<lparr>tokens := tokens b1 - precision\<rparr>) else (False, b1))"
    by simp
  have same: "rate b1 = rate b" "capacity b1 = capacity b" "oldLimit b1 = oldLimit b"
    "expireAt b1 = expireAt b" "lastUpdate b1 \<le> now" "0 \<le> tokens b1"
    "tokens b1 \<le> capacity b1" "lastUpdate b1 = lastUpdate b \<or> lastUpdate b1 = now"
    using lu t0 tc_cap by (auto simp: b1_def)
  have pot1: "refill_potential b1 T \<le> refill_potential b T"
  proof (cases "0 < e * rate b")
    case False
    then show ?thesis by (simp add: b1_def)
  next
    case True
    with e0 have rpos: "0 < rate b"
      by (metis mult_le_0_iff linorder_not_less order_less_imp_le)
    have "e + (T - now) div second \<le> (T - lastUpdate b) div second"
      using div_superadd [OF second_pos, of "now - lastUpdate b" "T - now"] by (simp add: e_def)
    then have "rate b * (e + (T - now) div second) \<le> rate b * ((T - lastUpdate b) div second)"
      using rpos by (intro mult_left_mono) simp_all
    moreover have "refill_potential b1 T \<le> tokens b + e * rate b + rate b * ((T - now) div second)"
      using True rpos by (simp add: b1_def refill_potential_def)
    ultimately show ?thesis
      using rpos by (simp add: refill_potential_def algebra_simps)
  qed
  have pot_same: "refill_potential (b1\<lparr>tokens := tokens b1 - precision\<rparr>) T
      = refill_potential b1 T - precision"
    by (simp add: refill_potential_def)
  show "(if ok then precision else 0) + refill_potential b' T \<le> refill_potential b T"
    using res pot1 pot_same by (auto split: if_splits)
  show "0 \<le> tokens b'" "tokens b' \<le> capacity b'" "lastUpdate b' \<le> now"
    "rate b' = rate b" "capacity b' = capacity b" "oldLimit b' = oldLimit b"
    "expireAt b' = expireAt b" "lastUpdate b' = lastUpdate b \<or> lastUpdate b' = now"
    using res same by (auto simp: precision_def split: if_splits)
qed

lemma refill_potential_nonneg:
  "0 \<le> tokens b \<Longrightarrow> lastUpdate b \<le> T \<Longrightarrow> 0 \<le> refill_potential b T"
  using second_pos by (simp add: refill_potential_def pos_imp_zdiv_nonneg_iff)

lemma first_step_potential:
  assumes tc: "tryConsume u t0 = (ok, b1)"
    and ex: "int64_of_float64 (Some (Seconds (t0 - lastUpdate u))) = (t0 - lastUpdate u) div second"
    and lu: "lastUpdate u \<le> t0" and t0T: "t0 \<le> T"
    and TW: "T \<le> t0 + window" and tok: "0 \<le> tokens u" "tokens u \<le> capacity u"
  shows "(if ok then precision else 0) + refill_potential b1 T
      \<le> capacity u + max 0 (rate u) * (window div second + 1)"
proof -
  define e where "e = (t0 - lastUpdate u) div second"
  define M where "M = max 0 (rate u)"
  have M0: "0 \<le> M" by (simp add: M_def)
  have e0: "0 \<le> e"
    using lu second_pos by (simp add: e_def pos_imp_zdiv_nonneg_iff)
  define u1 where "u1 = (if 0 < e * rate u
      then u\<lparr>tokens := min (tokens u + e * rate u) (capacity u), lastUpdate := t0\<rparr> else u)"
  have "tryConsume u t0 = (if precision \<le> tokens u1
      then (True, u1\<lparr>tokens := tokens u1 - precision\<rparr>) else (False, u1))"
    using tryConsume_unfold [OF ex] by (simp only: Let_def u1_def e_def)
  with tc have res: "(ok, b1) = (if precision \<le> tokens u1
      then (True, u1\<lparr>tokens := tokens u1 - precision\<rparr>) else (False, u1))"
    by simp
  have wd: "0 \<le> window div second"
    using t0T TW second_pos by (simp add: pos_imp_zdiv_nonneg_iff)
  have bound: "refill_potential u1 T \<le> capacity u + M * (window div second + 1)"
  proof (cases "0 < e * rate u")
    case True
    have "(T - t0) div second \<le> window div second"
      using TW second_pos by (intro zdiv_mono1) simp_all
    then have "M * ((T - t0) div second) \<le> M * (window div second + 1)"
      using M0 by (intro mult_left_mono) simp_all
    moreover have "refill_potential u1 T \<le> capacity u + M * ((T - t0) div second)"
      using True by (simp add: u1_def refill_potential_def M_def)
    ultimately show ?thesis by simp
  next
    case False
    then have u1: "u1 = u" by (simp add: u1_def)
    show ?thesis
    proof (cases "0 < rate u")
      case False
      then have "M = 0" by (simp add: M_def)
      with tok show ?thesis by (simp add: u1 refill_potential_def M_def)
    next
      case rpos: True
      with \<open>\<not> 0 < e * rate u\<close> e0 have "e = 0"
        by (metis less_le mult_pos_pos)
      then have "t0 - lastUpdate u < second"
        using second_pos lu unfolding e_def
        by (metis div_pos_pos_trivial diff_ge_0_iff_ge linorder_not_less pos_imp_zdiv_pos_iff
            less_irrefl zdiv_eq_0_iff)
      then have "T - lastUpdate u \<le> window + second"
        using TW by simp
      then have "(T - lastUpdate u) div second \<le> (window + second) div second"
        using second_pos by (intro zdiv_mono1) simp_all
      also have "\<dots> = window div second + 1"
        using second_pos by simp
      finally have "M * ((T - lastUpdate u) div second) \<le> M * (window div second + 1)"
        using M0 by (rule mult_left_mono)
      with tok show ?thesis
        by (simp add: u1 refill_potential_def M_def)
    qed
  qed
  have "refill_potential (u1\<lparr>tokens := tokens u1 - precision\<rparr>) T
      = refill_potential u1 T - precision"
    by (simp add: refill_potential_def)
  with res bound show ?thesis
    by (auto simp: M_def split: if_splits)
qed

lemma own_call:
  "\<exists>b'. map_of (buckets (snd (checkBucketLocal order s key window limit now))) key = Some b'
     \<and> tryConsume (served_bucket (map_of (buckets s) key) window limit now) now
         = (fst (checkBucketLocal order s key window limit now), b')"
  by (auto simp: checkBucketLocal_def served_bucket_def initBucket_def updateBucket_def Let_def
      update_conv' split: option.splits prod.splits)

lemma other_call:
  "k \<noteq> key \<Longrightarrow>
   map_of (buckets (snd (checkBucketLocal order s k window limit now))) key = map_of (buckets s) key
   \<or> map_of (buckets (snd (checkBucketLocal order s k window limit now))) key = None"
  by (auto simp: checkBucketLocal_def initBucket_def updateBucket_def evictOldestBucket_def Let_def
      update_conv' delete_conv' split: option.splits prod.splits)

lemma cleanup_entry:
  "map_of (buckets (cleanup order s now)) key = map_of (buckets s) key
   \<or> map_of (buckets (cleanup order s now)) key = None"
  by (induction order s now rule: cleanup.induct) (auto simp: delete_conv' split: option.splits)

lemma cleanup_live:
  "map_of (buckets s) key = Some b \<Longrightarrow> \<not> expireAt b < now
   \<Longrightarrow> map_of (buckets (cleanup order s now)) key = Some b"
proof (induction order arbitrary: s)
  case Nil
  then show ?case by simp
next
  case (Cons k order)
  show ?case
  proof (cases "map_of (buckets s) k")
    case None
    with Cons show ?thesis by simp
  next
    case (Some x)
    show ?thesis
    proof (cases "expireAt x < now")
      case False
      with Some Cons show ?thesis by simp
    next
      case True
      with Some Cons.prems have "k \<noteq> key" by auto
      then have "map_of (buckets (s\<lparr>buckets := AList.delete k (buckets s),
          lastAccessTime := AList.delete k (lastAccessTime s)\<rparr>)) key = Some b"
        using Cons.prems(1) by (simp add: delete_conv')
      from Cons.IH [OF this Cons.prems(2)] Some True show ?thesis by simp
    qed
  qed
qed

lemma ttl_ge: "0 < window \<Longrightarrow> window \<le> max maxTTL (window * ttlRate)"
  by (simp add: ttlRate_def max_def)

lemma whole_seconds_subset: "whole_seconds ts \<Longrightarrow> set us \<subseteq> set ts \<Longrightarrow> whole_seconds us"
  by (auto simp: whole_seconds_def)

lemma whole_secondsD:
  "whole_seconds ts \<Longrightarrow> a \<in> set ts \<Longrightarrow> b \<in> set ts \<Longrightarrow> a \<le> b
   \<Longrightarrow> int64_of_float64 (Some (Seconds (b - a))) = (b - a) div second"
  by (simp add: whole_seconds_def)

lemma allowed_Nil: "allowed key s [] = 0"
  by (simp add: allowed_def)

lemma allowed_Check:
  "allowed key s (Check k w l t ord # evs) =
     (if k = key \<and> fst (checkBucketLocal ord s k w l t) then 1 else 0)
       + allowed key (step s (Check k w l t ord)) evs"
  by (auto simp: allowed_def)

lemma allowed_Cleanup:
  "allowed key s (Cleanup t ord # evs) = allowed key (step s (Cleanup t ord)) evs"
  by (simp add: allowed_def)

lemma key_times_Cons:
  "key_times key (e # evs) = (if for_key key e then ev_now e # key_times key evs else key_times key evs)"
  by (simp add: key_times_def)

lemma run_potential:
  assumes W: "0 < window"
  shows "map_of (buckets s) key = Some b
    \<Longrightarrow> oldLimit b = limit \<Longrightarrow> 0 \<le> tokens b \<Longrightarrow> tokens b \<le> capacity b
    \<Longrightarrow> T \<le> expireAt b \<Longrightarrow> lastUpdate b \<le> T \<Longrightarrow> sorted (key_times key evs)
    \<Longrightarrow> (\<forall>t \<in> set (key_times key evs). lastUpdate b \<le> t)
    \<Longrightarrow> (\<forall>e \<in> set evs. ev_now e \<le> T \<and> T \<le> ev_now e + window)
    \<Longrightarrow> (\<forall>e \<in> set evs. for_key key e \<longrightarrow> ev_window e = window \<and> ev_limit e = limit)
    \<Longrightarrow> not_evicted key s evs
    \<Longrightarrow> whole_seconds (lastUpdate b # key_times key evs)
    \<Longrightarrow> precision * allowed key s evs \<le> refill_potential b T"
proof (induction evs arbitrary: s b)
  case Nil
  then show ?case
    by (simp add: allowed_Nil refill_potential_nonneg)
next
  case (Cons e evs)
  have rng: "\<forall>e' \<in> set evs. ev_now e' \<le> T \<and> T \<le> ev_now e' + window"
    using Cons.prems(9) by simp
  have kw: "\<forall>e' \<in> set evs. for_key key e' \<longrightarrow> ev_window e' = window \<and> ev_limit e' = limit"
    using Cons.prems(10) by simp
  have ne: "not_evicted key (step s e) evs"
    using Cons.prems(11) by simp
  have t: "ev_now e \<le> T" "T \<le> ev_now e + window"
    using Cons.prems(9) by simp_all
  show ?case
  proof (cases "for_key key e")
    case False
    have same: "map_of (buckets (step s e)) key = Some b"
    proof (cases e)
      case (Check k w l now ord)
      with False have k: "k \<noteq> key" by simp
      from Cons.prems(11) Cons.prems(1) k Check
      have "map_of (buckets (step s e)) key \<noteq> None" by simp
      with other_call [OF k, of ord s w l now] Check Cons.prems(1) show ?thesis
        by auto
    next
      case (Cleanup now ord)
      with t Cons.prems(5) have "\<not> expireAt b < now" by simp
      from cleanup_live [OF Cons.prems(1) this] Cleanup show ?thesis by simp
    qed
    have kt: "key_times key (e # evs) = key_times key evs"
      using False by (simp add: key_times_Cons)
    from Cons.IH [OF same Cons.prems(2,3,4,5,6) Cons.prems(7,8) [unfolded kt] rng kw ne
        Cons.prems(12) [unfolded kt]]
    have "precision * allowed key (step s e) evs \<le> refill_potential b T" .
    moreover have "allowed key s (e # evs) = allowed key (step s e) evs"
      using False by (cases e) (simp_all add: allowed_Check allowed_Cleanup)
    ultimately show ?thesis by simp
  next
    case True
    then obtain now ord where e: "e = Check key window limit now ord"
      using Cons.prems(10) by (cases e) auto
    have kt: "key_times key (e # evs) = now # key_times key evs"
      using e by (simp add: key_times_Cons)
    let ?u = "b\<lparr>expireAt := now + max maxTTL (window * ttlRate)\<rparr>"
    have now: "lastUpdate b \<le> now" "now \<le> T" "T \<le> now + window"
      using t e Cons.prems(8) [unfolded kt] by simp_all
    have later: "\<forall>t \<in> set (key_times key evs). now \<le> t"
      using Cons.prems(7) by (simp add: kt)
    have served: "served_bucket (map_of (buckets s) key) window limit now = ?u"
      using Cons.prems(1,2,5) now by (simp add: served_bucket_def Let_def)
    from own_call [of ord s key window limit now] served
    obtain b' where b': "map_of (buckets (step s e)) key = Some b'"
      and tc: "tryConsume ?u now = (fst (checkBucketLocal ord s key window limit now), b')"
      by (auto simp: e)
    define ok where "ok = fst (checkBucketLocal ord s key window limit now)"
    have ex: "int64_of_float64 (Some (Seconds (now - lastUpdate ?u))) = (now - lastUpdate ?u) div second"
      using whole_secondsD [OF Cons.prems(12), of "lastUpdate b" now] now
      by (simp add: kt)
    note f = tryConsume_facts [OF tc [folded ok_def] ex, of T]
    have pot: "(if ok then precision else 0) + refill_potential b' T \<le> refill_potential b T"
      using f(1) now Cons.prems(3,4) by (simp add: refill_potential_def)
    have fb: "0 \<le> tokens b'" "tokens b' \<le> capacity b'" "lastUpdate b' \<le> now"
      "oldLimit b' = limit" "expireAt b' = now + max maxTTL (window * ttlRate)"
      "lastUpdate b' = lastUpdate b \<or> lastUpdate b' = now"
      using f(2-9) now Cons.prems(2,3,4) by simp_all
    have exp: "T \<le> expireAt b'"
      using fb(5) now ttl_ge [OF W] by simp
    have lu: "lastUpdate b' \<le> T"
      using fb(3) now by simp
    have srt: "sorted (key_times key evs)"
      using Cons.prems(7) by (simp add: kt)
    have lus: "\<forall>t \<in> set (key_times key evs). lastUpdate b' \<le> t"
      using later fb(3) by fastforce
    have ws: "whole_seconds (lastUpdate b' # key_times key evs)"
      using fb(6) by (intro whole_seconds_subset [OF Cons.prems(12)]) (auto simp: kt)
    from Cons.IH [OF b' fb(4,1,2) exp lu srt lus rng kw ne ws]
    have "precision * allowed key (step s e) evs \<le> refill_potential b' T" .
    moreover have "allowed key s (e # evs) = (if ok then 1 else 0) + allowed key (step s e) evs"
      by (simp add: e allowed_Check ok_def)
    ultimately show ?thesis
      using pot by (cases ok) (simp_all add: distrib_left)
  qed
qed

lemma served_bucket_facts:
  assumes start: "case entry of None \<Rightarrow> True | Some b \<Rightarrow> bucket_for window limit t0 b"
    and L: "0 < limit" and t: "t0 \<le> now"
  shows "capacity (served_bucket entry window limit now) = limit * precision"
    and "rate (served_bucket entry window limit now) = newRate (limit * precision) window"
    and "oldLimit (served_bucket entry window limit now) = limit"
    and "0 \<le> tokens (served_bucket entry window limit now)"
    and "tokens (served_bucket entry window limit now) \<le> capacity (served_bucket entry window limit now)"
    and "lastUpdate (served_bucket entry window limit now) \<le> now"
    and "expireAt (served_bucket entry window limit now) = now + max maxTTL (window * ttlRate)"
    and "lastUpdate (served_bucket entry window limit now) = now
         \<or> (\<exists>b. entry = Some b \<and> lastUpdate (served_bucket entry window limit now) = lastUpdate b)"
  using assms
  by (auto simp: served_bucket_def bucket_for_def Let_def precision_def split: option.splits)

lemma start_potential:
  assumes W: "0 < window" and L: "0 < limit"
  shows "(case map_of (buckets s) key of None \<Rightarrow> True | Some b \<Rightarrow> bucket_for window limit t0 b)
    \<Longrightarrow> sorted (key_times key evs)
    \<Longrightarrow> (\<forall>e \<in> set evs. t0 \<le> ev_now e \<and> ev_now e \<le> t0 + window)
    \<Longrightarrow> (\<forall>e \<in> set evs. for_key key e \<longrightarrow> ev_window e = window \<and> ev_limit e = limit)
    \<Longrightarrow> not_evicted key s evs
    \<Longrightarrow> whole_seconds (last_updates key s @ key_times key evs)
    \<Longrightarrow> precision * allowed key s evs
        \<le> limit * precision + max 0 (newRate (limit * precision) window) * (window div second + 1)"
proof (induction evs arbitrary: s)
  case Nil
  have "0 \<le> window div second"
    using W second_pos by (simp add: pos_imp_zdiv_nonneg_iff)
  then have "0 \<le> max 0 (newRate (limit * precision) window) * (window div second + 1)"
    by simp
  with L show ?case
    by (simp add: allowed_Nil precision_def)
next
  case (Cons e evs)
  define T where "T = t0 + window"
  have rng: "\<forall>e' \<in> set evs. t0 \<le> ev_now e' \<and> ev_now e' \<le> t0 + window"
    using Cons.prems(3) by simp
  have kw: "\<forall>e' \<in> set evs. for_key key e' \<longrightarrow> ev_window e' = window \<and> ev_limit e' = limit"
    using Cons.prems(4) by simp
  have ne: "not_evicted key (step s e) evs"
    using Cons.prems(5) by simp
  have t: "t0 \<le> ev_now e" "ev_now e \<le> T" "T \<le> ev_now e + window"
    using Cons.prems(3) by (simp_all add: T_def)
  show ?case
  proof (cases "for_key key e")
    case False
    have kt: "key_times key (e # evs) = key_times key evs"
      using False by (simp add: key_times_Cons)
    have entry: "map_of (buckets (step s e)) key = map_of (buckets s) key
        \<or> map_of (buckets (step s e)) key = None"
    proof (cases e)
      case (Check k w l now ord)
      with False have "k \<noteq> key" by simp
      from other_call [OF this, of ord s w l now] Check show ?thesis by simp
    next
      case (Cleanup now ord)
      with cleanup_entry [of ord s now key] show ?thesis by simp
    qed
    then have start: "case map_of (buckets (step s e)) key of None \<Rightarrow> True
        | Some b \<Rightarrow> bucket_for window limit t0 b"
      using Cons.prems(1) by auto
    have "set (last_updates key (step s e)) \<subseteq> set (last_updates key s)"
      using entry by (auto simp: last_updates_def)
    then have ws: "whole_seconds (last_updates key (step s e) @ key_times key evs)"
      by (intro whole_seconds_subset [OF Cons.prems(6)]) (auto simp: kt)
    from Cons.IH [OF start Cons.prems(2) [unfolded kt] rng kw ne ws]
    have "precision * allowed key (step s e) evs
        \<le> limit * precision + max 0 (newRate (limit * precision) window) * (window div second + 1)" .
    moreover have "allowed key s (e # evs) = allowed key (step s e) evs"
      using False by (cases e) (simp_all add: allowed_Check allowed_Cleanup)
    ultimately show ?thesis by simp
  next
    case True
    then obtain now ord where e: "e = Check key window limit now ord"
      using Cons.prems(4) by (cases e) auto
    have kt: "key_times key (e # evs) = now # key_times key evs"
      using e by (simp add: key_times_Cons)
    have now: "t0 \<le> now" "now \<le> T" "T \<le> now + window"
      using t e by simp_all
    have later: "\<forall>t \<in> set (key_times key evs). now \<le> t"
      using Cons.prems(2) by (simp add: kt)
    define u where "u = served_bucket (map_of (buckets s) key) window limit now"
    note u = served_bucket_facts [OF Cons.prems(1) L now(1), folded u_def]
    from own_call [of ord s key window limit now]
    obtain b' where b': "map_of (buckets (step s e)) key = Some b'"
      and tc: "tryConsume u now = (fst (checkBucketLocal ord s key window limit now), b')"
      by (auto simp: e u_def)
    define ok where "ok = fst (checkBucketLocal ord s key window limit now)"
    have lu_in: "lastUpdate u \<in> set (last_updates key s @ key_times key (e # evs))"
      using u(8) by (auto simp: last_updates_def kt)
    have now_in: "now \<in> set (last_updates key s @ key_times key (e # evs))"
      by (simp add: kt)
    have ex: "int64_of_float64 (Some (Seconds (now - lastUpdate u))) = (now - lastUpdate u) div second"
      using whole_secondsD [OF Cons.prems(6) lu_in now_in u(6)] .
    have first: "(if ok then precision else 0) + refill_potential b' T
        \<le> limit * precision + max 0 (newRate (limit * precision) window) * (window div second + 1)"
      using first_step_potential [OF tc [folded ok_def] ex u(6) now(2,3) u(4,5)] u(1,2) by simp
    note f = tryConsume_facts [OF tc [folded ok_def] ex u(6) now(2) u(4,5)]
    have fb: "0 \<le> tokens b'" "tokens b' \<le> capacity b'" "lastUpdate b' \<le> now"
      "oldLimit b' = limit" "expireAt b' = now + max maxTTL (window * ttlRate)"
      "lastUpdate b' = lastUpdate u \<or> lastUpdate b' = now"
      using f(2-9) u by simp_all
    have exp: "T \<le> expireAt b'"
      using fb(5) now ttl_ge [OF W] by simp
    have lu: "lastUpdate b' \<le> T"
      using fb(3) now by simp
    have srt: "sorted (key_times key evs)"
      using Cons.prems(2) by (simp add: kt)
    have lus: "\<forall>t \<in> set (key_times key evs). lastUpdate b' \<le> t"
      using later fb(3) by fastforce
    have rng': "\<forall>e' \<in> set evs. ev_now e' \<le> T \<and> T \<le> ev_now e' + window"
      using rng by (simp add: T_def)
    have "lastUpdate b' \<in> set (last_updates key s @ key_times key (e # evs))"
      using fb(6) lu_in now_in by auto
    then have ws: "whole_seconds (lastUpdate b' # key_times key evs)"
      by (intro whole_seconds_subset [OF Cons.prems(6)]) (auto simp: kt)
    from run_potential [OF W b' fb(4,1,2) exp lu srt lus rng' kw ne ws]
    have "precision * allowed key (step s e) evs \<le> refill_potential b' T" .
    moreover have "allowed key s (e # evs) = (if ok then 1 else 0) + allowed key (step s e) evs"
      by (simp add: e allowed_Check ok_def)
    ultimately show ?thesis
      using first by (cases ok) (simp_all add: distrib_left)
  qed
qed

text \<open>
  C9 (amended): take a limit \<open>L > 0\<close>, a window \<open>W > 0\<close>, and what happens to the
  key's shard at instants of an interval \<open>[t\<^sub>0, t\<^sub>0 + W]\<close>: calls of checkBucketLocal for
  any keys, those for the key at non-decreasing times and with \<open>L\<close> and \<open>W\<close>, and
  runs of cleanup. The key starts without a bucket or with a bucket kept for this limit
  and window; no call for another key evicts the key's bucket; and the whole seconds
  elapsed between the key's calls, and since the bucket's last update, are computed
  without a rounding error. Then the key is allowed at most
  \<open>L + \<lfloor>r (\<lfloor>W\<rfloor> + 1) / 1000\<rfloor>\<close> requests, with \<open>\<lfloor>W\<rfloor>\<close> the whole seconds of
  the window and \<open>r\<close> the rate \<^verbatim>\<open>int64(float64(1000 * L) / W.Seconds())\<close>, 0 if that
  is negative: a full bucket, the refill over the window, and the refill of one second
  carried over from before the interval.
\<close>

theorem C9_allowed_within_window:
  assumes W: "0 < window" and L: "0 < limit"
    and interval: "\<forall>e \<in> set evs. t0 \<le> ev_now e \<and> ev_now e \<le> t0 + window"
    and calls: "\<forall>e \<in> set evs. for_key key e \<longrightarrow> ev_window e = window \<and> ev_limit e = limit"
    and srt: "sorted (key_times key evs)"
    and start: "case map_of (buckets shard) key of
                  None \<Rightarrow> True
                | Some b \<Rightarrow> bucket_for window limit t0 b"
    and kept: "not_evicted key shard evs"
    and exact: "whole_seconds (last_updates key shard @ key_times key evs)"
  shows "allowed key shard evs
      \<le> limit + max 0 (newRate (limit * precision) window) * (window div second + 1) div precision"
proof -
  from start_potential [OF W L start srt interval calls kept exact]
  have "precision * allowed key shard evs
      \<le> limit * precision + max 0 (newRate (limit * precision) window) * (window div second + 1)" .
  then have "(allowed key shard evs - limit) * precision
      \<le> max 0 (newRate (limit * precision) window) * (window div second + 1)"
    by (simp add: algebra_simps)
  then have "(allowed key shard evs - limit) * precision div precision
      \<le> max 0 (newRate (limit * precision) window) * (window div second + 1) div precision"
    by (intro zdiv_mono1) (simp_all add: precision_def)
  then show ?thesis
    by (simp add: precision_def)
qed

theorem C9_allowed_within_window_witness:
  "allowed ''k'' newShard burst_then_steady
     \<le> 10 + max 0 (newRate (10 * precision) (10 * second)) * (10 * second div second + 1) div precision
   \<and> allowed ''k'' drained_shard mixed_run
     \<le> 10 + max 0 (newRate (10 * precision) (10 * second)) * (10 * second div second + 1) div precision"
proof -
  have "(0::int) < 10 * second" "(0::int) < 10"
    "\<forall>e \<in> set burst_then_steady. 0 \<le> ev_now e \<and> ev_now e \<le> 0 + 10 * second"
    "\<forall>e \<in> set burst_then_steady. for_key ''k'' e \<longrightarrow> ev_window e = 10 * second \<and> ev_limit e = 10"
    "sorted (key_times ''k'' burst_then_steady)"
    "case map_of (buckets newShard) ''k'' of None \<Rightarrow> True
     | Some b \<Rightarrow> bucket_for (10 * second) 10 0 b"
    "not_evicted ''k'' newShard burst_then_steady"
    "whole_seconds (last_updates ''k'' newShard @ key_times ''k'' burst_then_steady)"
    by code_simp+
  then have fresh: "allowed ''k'' newShard burst_then_steady
     \<le> 10 + max 0 (newRate (10 * precision) (10 * second)) * (10 * second div second + 1) div precision"
    by (rule C9_allowed_within_window)
  have "(0::int) < 10 * second" "(0::int) < 10"
    "\<forall>e \<in> set mixed_run. second \<le> ev_now e \<and> ev_now e \<le> second + 10 * second"
    "\<forall>e \<in> set mixed_run. for_key ''k'' e \<longrightarrow> ev_window e = 10 * second \<and> ev_limit e = 10"
    "sorted (key_times ''k'' mixed_run)"
    "case map_of (buckets drained_shard) ''k'' of None \<Rightarrow> True
     | Some b \<Rightarrow> bucket_for (10 * second) 10 second b"
    "not_evicted ''k'' drained_shard mixed_run"
    "whole_seconds (last_updates ''k'' drained_shard @ key_times ''k'' mixed_run)"
    by code_simp+
  then have "allowed ''k'' drained_shard mixed_run
     \<le> 10 + max 0 (newRate (10 * precision) (10 * second)) * (10 * second div second + 1) div precision"
    by (rule C9_allowed_within_window)
  with fresh show ?thesis ..
qed

section \<open>Results: stream chunks\<close>

text \<open>
  C3, as stated, fails: every data line that contains \<^verbatim>\<open>"completion_tokens":\<close> and
  decodes becomes a usage chunk, and every chunk built while the chunk counter is 1 has
  \<open>first = true\<close>, the empty chunk of a blank line included. An upstream that reports
  usage on two data lines separated by blank lines yields two usage chunks and two chunks
  with \<open>first = true\<close>.
\<close>

theorem C3_two_usage_two_first_counterexample:
  "length (filter isUsage (chunks_of braces_codec (NewChatCompletionStreamResponse two_usage_stream))) = 2
   \<and> length (filter isFirst (chunks_of braces_codec (NewChatCompletionStreamResponse two_usage_stream))) = 2"
  by code_simp

lemma NextChunk_done:
  "NextChunk codec r = (Some ch, e, r') \<Longrightarrow> isDone ch
     \<Longrightarrow> e = Some EOF \<and> stream_isDone r' \<and> eofCancelled r'"
  by (auto simp: NextChunk_def Let_def NewUsageChatCompletionStreamChunk_def
      NewChatCompletionStreamChunk_def NewEmptyChatCompletionStreamChunk_def
      NewDoneChatCompletionStreamChunk_def
      split: list.splits if_splits option.splits prod.splits)

lemma NextChunk_first_data:
  "NextChunk codec r = (Some ch, e, r') \<Longrightarrow> first_data_chunk ch
     \<Longrightarrow> chunkNum r = 0 \<and> chunkNum r' = 1"
  by (auto simp: NextChunk_def Let_def NewUsageChatCompletionStreamChunk_def
      NewChatCompletionStreamChunk_def NewEmptyChatCompletionStreamChunk_def
      NewDoneChatCompletionStreamChunk_def first_data_chunk_def IsFirst_def
      split: list.splits if_splits option.splits prod.splits)

lemma NextChunk_chunkNum_mono:
  "NextChunk codec r = (chunk, e, r') \<Longrightarrow> chunkNum r \<le> chunkNum r'"
  by (auto simp: NextChunk_def Let_def NewUsageChatCompletionStreamChunk_def
      NewChatCompletionStreamChunk_def
      split: list.splits if_splits option.splits prod.splits)

lemma stream_chunks_elem:
  "(chunk, e) \<in> set (stream_chunks codec r) \<Longrightarrow>
     \<exists>r0 r'. NextChunk codec r0 = (chunk, e, r') \<and> chunkNum r \<le> chunkNum r0"
proof (induction codec r rule: stream_chunks.induct)
  case (1 codec r)
  obtain c0 e0 r1 where nc: "NextChunk codec r = (c0, e0, r1)"
    by (cases "NextChunk codec r") auto
  show ?case
  proof (cases e0)
    case (Some err)
    with nc "1.prems" have "(chunk, e) = (c0, e0)"
      by (subst (asm) stream_chunks.simps) simp
    with nc show ?thesis by auto
  next
    case None
    with nc "1.prems" have "(chunk, e) = (c0, e0) \<or> (chunk, e) \<in> set (stream_chunks codec r1)"
      by (subst (asm) stream_chunks.simps) auto
    then show ?thesis
    proof
      assume "(chunk, e) = (c0, e0)"
      with nc show ?thesis by auto
    next
      assume "(chunk, e) \<in> set (stream_chunks codec r1)"
      from "1.IH" [OF nc [symmetric] refl None this] obtain r0 r' where
        "NextChunk codec r0 = (chunk, e, r')" "chunkNum r1 \<le> chunkNum r0"
        by auto
      with NextChunk_chunkNum_mono [OF nc] show ?thesis
        by (meson le_trans)
    qed
  qed
qed

lemma chunks_of_elem:
  "ch \<in> set (chunks_of codec r) \<Longrightarrow> \<exists>e. (Some ch, e) \<in> set (stream_chunks codec r)"
  by (auto simp: chunks_of_def List.map_filter_def)

lemma no_first_data_after_first:
  assumes "1 \<le> chunkNum r"
  shows "filter first_data_chunk (chunks_of codec r) = []"
proof -
  have "\<not> first_data_chunk ch" if "ch \<in> set (chunks_of codec r)" for ch
  proof
    assume f: "first_data_chunk ch"
    from chunks_of_elem [OF that] obtain e where "(Some ch, e) \<in> set (stream_chunks codec r)" ..
    from stream_chunks_elem [OF this] obtain r0 r' where
      "NextChunk codec r0 = (Some ch, e, r')" "chunkNum r \<le> chunkNum r0" by auto
    with NextChunk_first_data [OF _ f] assms show False by fastforce
  qed
  then show ?thesis by (simp add: filter_empty_conv)
qed

lemma chunks_of_unfold:
  "chunks_of codec r =
     (case NextChunk codec r of
        (chunk, Some e, r') \<Rightarrow> (case chunk of None \<Rightarrow> [] | Some ch \<Rightarrow> [ch])
      | (chunk, None, r') \<Rightarrow> (case chunk of None \<Rightarrow> [] | Some ch \<Rightarrow> [ch]) @ chunks_of codec r')"
  unfolding chunks_of_def
  by (subst stream_chunks.simps) (auto simp: List.map_filter_def split: prod.splits option.splits)

lemma at_most_one_first_data:
  "length (filter first_data_chunk (chunks_of codec r)) \<le> 1"
proof (induction codec r rule: stream_chunks.induct)
  case (1 codec r)
  obtain c0 e0 r1 where nc: "NextChunk codec r = (c0, e0, r1)"
    by (cases "NextChunk codec r") auto
  show ?case
  proof (cases e0)
    case (Some err)
    with nc show ?thesis
      by (subst chunks_of_unfold) (simp split: option.splits)
  next
    case None
    note IH = "1.IH" [OF nc [symmetric] refl None]
    show ?thesis
    proof (cases "\<exists>ch. c0 = Some ch \<and> first_data_chunk ch")
      case True
      then obtain ch where ch: "c0 = Some ch" "first_data_chunk ch" by auto
      with NextChunk_first_data nc have "1 \<le> chunkNum r1" by fastforce
      from no_first_data_after_first [OF this] nc None ch show ?thesis
        by (subst chunks_of_unfold) simp
    next
      case False
      with nc None IH show ?thesis
        by (subst chunks_of_unfold) (auto split: option.splits)
    qed
  qed
qed

text \<open>
  C3 (amended): a done chunk implies EOF on the stream: \<^verbatim>\<open>NextChunk\<close> returns it together
  with \<^verbatim>\<open>io.EOF\<close>, with the stream's done flag set, and it is the last chunk a consumer
  receives; and among the chunks of a stream that are not empty at most one has
  \<open>first = true\<close>. (Nothing bounds the number of usage chunks.)
\<close>

theorem C3_done_implies_eof_one_first_data_chunk:
  "(\<forall>ch e r'. NextChunk codec r = (Some ch, e, r') \<and> isDone ch
        \<longrightarrow> e = Some EOF \<and> stream_isDone r' \<and> eofCancelled r')
   \<and> (\<forall>ch e. (Some ch, e) \<in> set (stream_chunks codec r) \<and> isDone ch \<longrightarrow> e = Some EOF)
   \<and> length (filter first_data_chunk (chunks_of codec r)) \<le> 1"
proof (intro conjI allI impI)
  fix ch e r'
  assume "NextChunk codec r = (Some ch, e, r') \<and> isDone ch"
  then show "e = Some EOF" "stream_isDone r'" "eofCancelled r'"
    using NextChunk_done by blast+
next
  fix ch e
  assume a: "(Some ch, e) \<in> set (stream_chunks codec r) \<and> isDone ch"
  with stream_chunks_elem obtain r0 r' where "NextChunk codec r0 = (Some ch, e, r')"
    by blast
  with a NextChunk_done show "e = Some EOF" by blast
next
  show "length (filter first_data_chunk (chunks_of codec r)) \<le> 1"
    by (rule at_most_one_first_data)
qed

theorem C3_done_implies_eof_one_first_data_chunk_witness:
  "fst (NextChunk braces_codec (NewChatCompletionStreamResponse [done_line]))
     = Some NewDoneChatCompletionStreamChunk
   \<and> fst (snd (NextChunk braces_codec (NewChatCompletionStreamResponse [done_line]))) = Some EOF
   \<and> stream_isDone (snd (snd (NextChunk braces_codec (NewChatCompletionStreamResponse [done_line]))))
   \<and> length (filter first_data_chunk
         (chunks_of braces_codec (NewChatCompletionStreamResponse two_usage_stream))) = 1"
proof -
  let ?r = "NewChatCompletionStreamResponse [done_line] :: string ChatCompletionStreamResponse"
  let ?n = "NextChunk braces_codec ?r"
  have c: "fst ?n = Some NewDoneChatCompletionStreamChunk"
    by code_simp
  then have "?n = (Some NewDoneChatCompletionStreamChunk, fst (snd ?n), snd (snd ?n))"
    by (metis prod.collapse)
  moreover have "isDone (NewDoneChatCompletionStreamChunk :: (string, string) ChatCompletionStreamChunk)"
    by (simp add: NewDoneChatCompletionStreamChunk_def)
  ultimately have "fst (snd ?n) = Some EOF \<and> stream_isDone (snd (snd ?n))"
    using C3_done_implies_eof_one_first_data_chunk [of braces_codec ?r] by blast
  moreover have "length (filter first_data_chunk
      (chunks_of braces_codec (NewChatCompletionStreamResponse two_usage_stream))) = 1"
    by code_simp
  ultimately show ?thesis using c by simp
qed

section \<open>Results: request body mutation\<close>

text \<open>
  On a body in which no member name occurs twice the library's operations are the update
  and the deletion of a binding.
\<close>

lemma map_of_rev_distinct: "distinct (map fst ms) \<Longrightarrow> map_of (rev ms) = map_of ms"
  by (rule map_of_inject_set [THEN iffD2]) (auto simp flip: rev_map)

lemma marshal_members:
  "distinct (map fst ms) \<Longrightarrow> \<forall>(a, b) \<in> set ms. f a = Some b \<Longrightarrow>
   map (\<lambda>k. (k, case f k of None \<Rightarrow> JNull | Some x \<Rightarrow> x)) (map fst ms) = ms"
  by (induction ms) auto

lemma Marshal_map_of:
  assumes "distinct (map fst ms)" and "f = map_of ms"
  shows "MarshalJSON \<lparr>pd_keys = map fst ms, pd_obj = f\<rparr> = JObject ms"
proof -
  have "\<forall>(a, b) \<in> set ms. f a = Some b"
    using assms by auto
  from marshal_members [OF assms(1) this] show ?thesis
    by (simp add: MarshalJSON_def del: map_map)
qed

lemma Marshal_decode: "distinct (map fst ms) \<Longrightarrow> MarshalJSON (decodeDoc ms) = JObject ms"
  by (simp add: decodeDoc_def map_of_rev_distinct Marshal_map_of)

lemma update_absent: "k \<notin> fst ` set ms \<Longrightarrow> AList.update k v ms = ms @ [(k, v)]"
  by (induction ms) auto

lemma Marshal_set:
  assumes d: "distinct (map fst ms)"
  shows "MarshalJSON (pd_set k v (decodeDoc ms)) = JObject (AList.update k v ms)"
proof -
  have "MarshalJSON \<lparr>pd_keys = map fst (AList.update k v ms), pd_obj = (map_of ms)(k \<mapsto> v)\<rparr>
          = JObject (AList.update k v ms)"
    using d by (intro Marshal_map_of) (simp_all add: distinct_update update_conv')
  moreover have "map fst (AList.update k v ms)
      = (if k \<in> set (map fst ms) then map fst ms else map fst ms @ [k])"
    by (simp add: update_keys)
  ultimately show ?thesis
    using d
    by (cases "k \<in> fst ` set ms") (simp_all add: pd_set_def decodeDoc_def map_of_rev_distinct)
qed

lemma Marshal_remove:
  assumes d: "distinct (map fst ms)" and a: "AllowMissingPathOnRemove opt"
  shows "(case pd_remove k opt (decodeDoc ms) of Inl e \<Rightarrow> Inl e | Inr d \<Rightarrow> Inr (MarshalJSON d))
     = Inr (JObject (AList.delete k ms))"
proof (cases "map_of ms k")
  case None
  then have "k \<notin> fst ` set ms"
    by (simp add: map_of_eq_None_iff)
  then have "AList.delete k ms = ms"
    by (rule delete_id)
  moreover have "pd_remove k opt (decodeDoc ms) = Inr (decodeDoc ms)"
    using None d a by (simp add: pd_remove_def decodeDoc_def map_of_rev_distinct)
  ultimately show ?thesis
    using d by (simp add: Marshal_decode)
next
  case (Some x)
  have "MarshalJSON \<lparr>pd_keys = map fst (AList.delete k ms), pd_obj = (map_of ms)(k := None)\<rparr>
          = JObject (AList.delete k ms)"
    using d by (intro Marshal_map_of) (simp_all add: distinct_delete delete_conv')
  moreover have "map fst (AList.delete k ms) = remove1 k (map fst ms)"
    using d by (simp add: delete_keys distinct_remove1_removeAll)
  moreover have "pd_remove k opt (decodeDoc ms)
      = Inr \<lparr>pd_keys = remove1 k (map fst ms), pd_obj = (map_of ms)(k := None)\<rparr>"
    using Some d by (simp add: pd_remove_def decodeDoc_def map_of_rev_distinct)
  ultimately show ?thesis
    by simp
qed

lemma split_slash_no_slash: "CHR ''/'' \<notin> set k \<Longrightarrow> split_slash k = [k]"
  by (induction k) auto

lemma split_slash_plain: "plain_key k \<Longrightarrow> split_slash (CHR ''/'' # k) = [[], k]"
  by (simp add: plain_key_def split_slash_no_slash)

lemma decodePatchKey_no_tilde: "CHR ''~'' \<notin> set k \<Longrightarrow> decodePatchKey k = k"
  by (induction k rule: decodePatchKey.induct) auto

lemma Apply_plain:
  assumes "plain_key k" and "distinct (map fst ms)"
  shows "ApplyWithOptions nested (JObject ms) applyOpt (NewAdd (CHR ''/'' # k) v)
           = Inr (JObject (AList.update k v ms))"
    and "AllowMissingPathOnRemove applyOpt \<Longrightarrow>
         ApplyWithOptions nested (JObject ms) applyOpt (NewRemove (CHR ''/'' # k))
           = Inr (JObject (AList.delete k ms))"
  using assms
  by (simp_all add: ApplyWithOptions_def split_slash_no_slash top_level_op_def
      decodePatchKey_no_tilde plain_key_def Marshal_set Marshal_remove)

lemma consistent_object_iff:
  "consistent r \<and> object_body r \<and> distinct_names r \<longleftrightarrow> (\<exists>ms. holds_object r ms)"
  by (auto simp: consistent_def object_body_def holds_object_def distinct_names_def
      map_of_rev_distinct split: option.splits json.splits)

lemma patch_request_add:
  assumes "holds_object r ms" and "plain_key k"
  shows "patch_request nested r applyOpt (NewAdd (CHR ''/'' # k) v) =
     Returned (None, r\<lparr>tts_bodyBuffer := Some (JObject (AList.update k v ms)),
                        tts_bodyParsed := (tts_bodyParsed r)(k \<mapsto> v)\<rparr>)"
  using assms
  by (simp add: patch_request_def modifyBufferBodyAndParsed_def holds_object_def Apply_plain
      update_conv' map_of_rev_distinct distinct_update split: option.splits)

lemma patch_request_remove:
  assumes "holds_object r ms" and "plain_key k"
  shows "patch_request nested r (Some (NewApplyOptions\<lparr>AllowMissingPathOnRemove := True\<rparr>))
       (NewRemove (CHR ''/'' # k)) =
     Returned (None, r\<lparr>tts_bodyBuffer := Some (JObject (AList.delete k ms)),
                        tts_bodyParsed := (tts_bodyParsed r)(k := None)\<rparr>)"
  using assms
  by (simp add: patch_request_def modifyBufferBodyAndParsed_def holds_object_def Apply_plain
      delete_conv' map_of_rev_distinct distinct_delete)

lemma defaultLoop_plain:
  "holds_object r ms \<Longrightarrow> \<forall>k \<in> fst ` set ps. plain_key k \<Longrightarrow>
     \<exists>r' ms'. defaultLoop nested r ps = Returned (None, r') \<and> holds_object r' ms'
        \<and> tts_bodyParsed r' = map_of ps ++ tts_bodyParsed r \<and> tts_Model r' = tts_Model r"
proof (induction ps arbitrary: r ms)
  case Nil
  then show ?case by auto
next
  case (Cons p ps)
  obtain k v where p: "p = (k, v)" by (cases p)
  have pl: "\<forall>k \<in> fst ` set ps. plain_key k" using Cons.prems(2) by simp
  show ?case
  proof (cases "k \<in> dom (tts_bodyParsed r)")
    case True
    from Cons.IH [OF Cons.prems(1) pl] obtain r' ms' where
      IH: "defaultLoop nested r ps = Returned (None, r')" "holds_object r' ms'"
      "tts_bodyParsed r' = map_of ps ++ tts_bodyParsed r" "tts_Model r' = tts_Model r"
      by blast
    have "map_of ps ++ tts_bodyParsed r = map_of (p # ps) ++ tts_bodyParsed r"
      using True by (auto simp: p map_add_def fun_eq_iff split: option.splits)
    with IH(3) have "tts_bodyParsed r' = map_of (p # ps) ++ tts_bodyParsed r" by simp
    moreover have "defaultLoop nested r (p # ps) = Returned (None, r')"
      using True IH(1) by (simp add: p)
    ultimately show ?thesis using IH(2,4) by blast
  next
    case False
    let ?r1 = "r\<lparr>tts_bodyBuffer := Some (JObject (AList.update k v ms)),
                   tts_bodyParsed := (tts_bodyParsed r)(k \<mapsto> v)\<rparr>"
    have pk: "plain_key k" using Cons.prems(2) by (simp add: p)
    have step: "patch_request nested r None (NewAdd (''/'' @ k) v) = Returned (None, ?r1)"
      using patch_request_add [OF Cons.prems(1) pk] by simp
    have "holds_object ?r1 (AList.update k v ms)"
      using Cons.prems(1) by (simp add: holds_object_def update_conv' distinct_update)
    from Cons.IH [OF this pl] obtain r' ms' where
      IH: "defaultLoop nested ?r1 ps = Returned (None, r')" "holds_object r' ms'"
      "tts_bodyParsed r' = map_of ps ++ tts_bodyParsed ?r1" "tts_Model r' = tts_Model ?r1"
      by blast
    have "map_of ps ++ tts_bodyParsed ?r1 = map_of (p # ps) ++ tts_bodyParsed r"
      using False by (auto simp: p map_add_def fun_eq_iff split: option.splits)
    with IH(3) have "tts_bodyParsed r' = map_of (p # ps) ++ tts_bodyParsed r" by simp
    moreover have "defaultLoop nested r (p # ps) = Returned (None, r')"
      using False IH(1) step by (simp add: p)
    moreover have "tts_Model r' = tts_Model r" using IH(4) by simp
    ultimately show ?thesis using IH(2) by blast
  qed
qed

lemma overrideLoop_plain:
  "holds_object r ms \<Longrightarrow> \<forall>k \<in> fst ` set ps. plain_key k \<Longrightarrow> distinct (map fst ps) \<Longrightarrow>
     \<exists>r' ms'. overrideLoop nested r ps = Returned (None, r') \<and> holds_object r' ms'
        \<and> tts_bodyParsed r' = tts_bodyParsed r ++ map_of ps \<and> tts_Model r' = tts_Model r"
proof (induction ps arbitrary: r ms)
  case Nil
  then show ?case by auto
next
  case (Cons p ps)
  obtain k v where p: "p = (k, v)" by (cases p)
  let ?r1 = "r\<lparr>tts_bodyBuffer := Some (JObject (AList.update k v ms)),
                 tts_bodyParsed := (tts_bodyParsed r)(k \<mapsto> v)\<rparr>"
  have pk: "plain_key k" using Cons.prems(2) by (simp add: p)
  have step: "patch_request nested r (Some (NewApplyOptions\<lparr>EnsurePathExistsOnAdd := True\<rparr>))
      (NewAdd (''/'' @ k) v) = Returned (None, ?r1)"
    using patch_request_add [OF Cons.prems(1) pk] by simp
  have ho: "holds_object ?r1 (AList.update k v ms)"
    using Cons.prems(1) by (simp add: holds_object_def update_conv' distinct_update)
  have pl: "\<forall>k \<in> fst ` set ps. plain_key k" "distinct (map fst ps)"
    using Cons.prems(2,3) by simp_all
  from Cons.IH [OF ho pl] obtain r' ms' where
    IH: "overrideLoop nested ?r1 ps = Returned (None, r')" "holds_object r' ms'"
    "tts_bodyParsed r' = tts_bodyParsed ?r1 ++ map_of ps" "tts_Model r' = tts_Model ?r1"
    by blast
  have "k \<notin> dom (map_of ps)"
    using Cons.prems(3) by (simp add: p dom_map_of_conv_image_fst)
  then have "tts_bodyParsed ?r1 ++ map_of ps = tts_bodyParsed r ++ map_of (p # ps)"
    by (auto simp: p map_add_def fun_eq_iff split: option.splits)
  with IH(3) have "tts_bodyParsed r' = tts_bodyParsed r ++ map_of (p # ps)" by simp
  moreover have "overrideLoop nested r (p # ps) = Returned (None, r')"
    using IH(1) step by (simp add: p)
  moreover have "tts_Model r' = tts_Model r" using IH(4) by simp
  ultimately show ?case using IH(2) by blast
qed

lemma RemoveParamKeys_plain:
  "holds_object r ms \<Longrightarrow> \<forall>k \<in> set ks. plain_key k \<Longrightarrow>
     \<exists>r' ms'. RemoveParamKeys nested r ks = Returned (None, r') \<and> holds_object r' ms'
        \<and> tts_bodyParsed r' = tts_bodyParsed r |` (- set ks) \<and> tts_Model r' = tts_Model r"
proof (induction ks arbitrary: r ms)
  case Nil
  then show ?case by auto
next
  case (Cons k ks)
  let ?r1 = "r\<lparr>tts_bodyBuffer := Some (JObject (AList.delete k ms)),
                 tts_bodyParsed := (tts_bodyParsed r)(k := None)\<rparr>"
  have pk: "plain_key k" using Cons.prems(2) by simp
  have step: "patch_request nested r (Some (NewApplyOptions\<lparr>AllowMissingPathOnRemove := True\<rparr>))
      (NewRemove (''/'' @ k)) = Returned (None, ?r1)"
    using patch_request_remove [OF Cons.prems(1) pk] by simp
  have "holds_object ?r1 (AList.delete k ms)"
    using Cons.prems(1) by (simp add: holds_object_def delete_conv' distinct_delete)
  moreover have "\<forall>k \<in> set ks. plain_key k" using Cons.prems(2) by simp
  ultimately obtain r' ms' where
    IH: "RemoveParamKeys nested ?r1 ks = Returned (None, r')" "holds_object r' ms'"
    "tts_bodyParsed r' = tts_bodyParsed ?r1 |` (- set ks)" "tts_Model r' = tts_Model ?r1"
    using Cons.IH by blast
  have "tts_bodyParsed ?r1 |` (- set ks) = tts_bodyParsed r |` (- set (k # ks))"
    by (auto simp: restrict_map_def fun_eq_iff)
  with IH(3) have "tts_bodyParsed r' = tts_bodyParsed r |` (- set (k # ks))" by simp
  moreover have "RemoveParamKeys nested r (k # ks) = Returned (None, r')"
    using IH(1) step by simp
  moreover have "tts_Model r' = tts_Model r" using IH(4) by simp
  ultimately show ?case using IH(2) by blast
qed


lemma changedModel_fields:
  "tts_bodyParsed (changedModel r) = tts_bodyParsed r"
  "tts_bodyBuffer (changedModel r) = tts_bodyBuffer r"
  by (simp_all add: changedModel_def split: option.splits json.splits)

lemma holds_object_consistent: "holds_object r ms \<Longrightarrow> consistent (changedModel r) \<and> consistent r"
  by (simp add: holds_object_def consistent_def changedModel_fields map_of_rev_distinct)

text \<open>
  What the three mutations do to a request whose buffer holds a JSON object without a
  repeated member name and re-parses to the parsed mapping, for parameter keys that
  contain neither \<^verbatim>\<open>/\<close> nor \<^verbatim>\<open>~\<close>: \<^verbatim>\<open>SetDefaultParams\<close> adds exactly the listed
  keys that are absent and keeps every existing key; \<^verbatim>\<open>SetOverrideParams\<close> replaces
  every listed key; \<^verbatim>\<open>RemoveParamKeys\<close> removes the listed keys, and succeeds and
  changes nothing when all of them are absent; each succeeds, and afterwards the buffer
  re-parses to the parsed mapping.
\<close>

lemma param_mutations_plain_keys:
  assumes "consistent r" and "object_body r" and "distinct_names r"
  shows "((\<forall>k \<in> fst ` set ps. plain_key k) \<longrightarrow>
       (\<exists>r'. SetDefaultParams nested r ps = Returned (None, r') \<and> consistent r'
          \<and> (\<forall>k. tts_bodyParsed r' k =
                (case tts_bodyParsed r k of Some v \<Rightarrow> Some v | None \<Rightarrow> map_of ps k))))
    \<and> ((\<forall>k \<in> fst ` set ps. plain_key k) \<and> distinct (map fst ps) \<longrightarrow>
       (\<exists>r'. SetOverrideParams nested r ps = Returned (None, r') \<and> consistent r'
          \<and> (\<forall>k. tts_bodyParsed r' k =
                (case map_of ps k of Some v \<Rightarrow> Some v | None \<Rightarrow> tts_bodyParsed r k))))
    \<and> ((\<forall>k \<in> set ks. plain_key k) \<longrightarrow>
       (\<exists>r'. RemoveParamKeys nested r ks = Returned (None, r') \<and> consistent r'
          \<and> tts_bodyParsed r' = tts_bodyParsed r |` (- set ks)
          \<and> (set ks \<inter> dom (tts_bodyParsed r) = {} \<longrightarrow> tts_bodyParsed r' = tts_bodyParsed r)))"
proof -
  from assms obtain ms where ho: "holds_object r ms"
    using consistent_object_iff by blast
  have d: "\<exists>r'. SetDefaultParams nested r ps = Returned (None, r') \<and> consistent r'
          \<and> (\<forall>k. tts_bodyParsed r' k =
                (case tts_bodyParsed r k of Some v \<Rightarrow> Some v | None \<Rightarrow> map_of ps k))"
    if pl: "\<forall>k \<in> fst ` set ps. plain_key k"
  proof -
    from defaultLoop_plain [OF ho pl] obtain r' ms' where
      l: "defaultLoop nested r ps = Returned (None, r')" "holds_object r' ms'"
      "tts_bodyParsed r' = map_of ps ++ tts_bodyParsed r"
      by blast
    have "SetDefaultParams nested r ps = Returned (None, changedModel r')"
      using l(1) by (simp add: SetDefaultParams_def)
    moreover have "consistent (changedModel r')"
      using holds_object_consistent [OF l(2)] by simp
    moreover have "tts_bodyParsed (changedModel r') k =
        (case tts_bodyParsed r k of Some v \<Rightarrow> Some v | None \<Rightarrow> map_of ps k)" for k
      using l(3) by (simp add: changedModel_fields map_add_def)
    ultimately show ?thesis by blast
  qed
  have o: "\<exists>r'. SetOverrideParams nested r ps = Returned (None, r') \<and> consistent r'
          \<and> (\<forall>k. tts_bodyParsed r' k =
                (case map_of ps k of Some v \<Rightarrow> Some v | None \<Rightarrow> tts_bodyParsed r k))"
    if pl: "\<forall>k \<in> fst ` set ps. plain_key k" and di: "distinct (map fst ps)"
  proof -
    from overrideLoop_plain [OF ho pl di] obtain r' ms' where
      l: "overrideLoop nested r ps = Returned (None, r')" "holds_object r' ms'"
      "tts_bodyParsed r' = tts_bodyParsed r ++ map_of ps"
      by blast
    have "SetOverrideParams nested r ps = Returned (None, changedModel r')"
      using l(1) by (simp add: SetOverrideParams_def)
    moreover have "consistent (changedModel r')"
      using holds_object_consistent [OF l(2)] by simp
    moreover have "tts_bodyParsed (changedModel r') k =
        (case map_of ps k of Some v \<Rightarrow> Some v | None \<Rightarrow> tts_bodyParsed r k)" for k
      using l(3) by (simp add: changedModel_fields map_add_def)
    ultimately show ?thesis by blast
  qed
  have rm: "\<exists>r'. RemoveParamKeys nested r ks = Returned (None, r') \<and> consistent r'
          \<and> tts_bodyParsed r' = tts_bodyParsed r |` (- set ks)
          \<and> (set ks \<inter> dom (tts_bodyParsed r) = {} \<longrightarrow> tts_bodyParsed r' = tts_bodyParsed r)"
    if pl: "\<forall>k \<in> set ks. plain_key k"
  proof -
    from RemoveParamKeys_plain [OF ho pl] obtain r' ms' where
      l: "RemoveParamKeys nested r ks = Returned (None, r')" "holds_object r' ms'"
      "tts_bodyParsed r' = tts_bodyParsed r |` (- set ks)"
      by blast
    have "tts_bodyParsed r |` (- set ks) = tts_bodyParsed r"
      if "set ks \<inter> dom (tts_bodyParsed r) = {}"
    proof
      fix k
      show "(tts_bodyParsed r |` (- set ks)) k = tts_bodyParsed r k"
        using that by (cases "tts_bodyParsed r k") (auto simp: restrict_map_def dom_def)
    qed
    with l holds_object_consistent [OF l(2)] show ?thesis by auto
  qed
  from d o rm show ?thesis by blast
qed

lemma param_mutations_plain_keys_example:
  "consistent plain_request \<and> object_body plain_request \<and> distinct_names plain_request
   \<and> (\<exists>r'. SetDefaultParams no_nested plain_request
               [(''model'', JString ''x''), (''temperature'', JNumber 7)] = Returned (None, r')
          \<and> consistent r'
          \<and> tts_bodyParsed r' ''model'' = Some (JString ''gpt'')
          \<and> tts_bodyParsed r' ''temperature'' = Some (JNumber 7))
   \<and> (\<exists>r'. SetOverrideParams no_nested plain_request
               [(''model'', JString ''x''), (''temperature'', JNumber 7)] = Returned (None, r')
          \<and> consistent r'
          \<and> tts_bodyParsed r' ''model'' = Some (JString ''x''))
   \<and> (\<exists>r'. RemoveParamKeys no_nested plain_request [''zzz''] = Returned (None, r')
          \<and> consistent r' \<and> tts_bodyParsed r' = tts_bodyParsed plain_request)"
proof -
  have c: "consistent plain_request" "object_body plain_request" "distinct_names plain_request"
    by (simp_all add: plain_request_def NewTextToSpeechRequest_def consistent_def object_body_def
        distinct_names_def)
  have pl: "\<forall>k \<in> fst ` set [(''model'', JString ''x''), (''temperature'', JNumber 7)]. plain_key k"
    "distinct (map fst [(''model'', JString ''x''), (''temperature'', JNumber 7)])"
    "\<forall>k \<in> set [''zzz'']. plain_key k"
    "set [''zzz''] \<inter> dom (tts_bodyParsed plain_request) = {}"
    by (simp_all add: plain_key_def plain_request_def NewTextToSpeechRequest_def dom_def)
  have m: "tts_bodyParsed plain_request ''model'' = Some (JString ''gpt'')"
    "tts_bodyParsed plain_request ''temperature'' = None"
    by (simp_all add: plain_request_def NewTextToSpeechRequest_def)
  note t = param_mutations_plain_keys [OF c, of "[(''model'', JString ''x''), (''temperature'', JNumber 7)]" no_nested "[''zzz'']"]
  from t pl obtain r1 where r1: "SetDefaultParams no_nested plain_request
      [(''model'', JString ''x''), (''temperature'', JNumber 7)] = Returned (None, r1)"
    "consistent r1"
    "\<forall>k. tts_bodyParsed r1 k = (case tts_bodyParsed plain_request k of Some v \<Rightarrow> Some v
        | None \<Rightarrow> map_of [(''model'', JString ''x''), (''temperature'', JNumber 7)] k)"
    by blast
  from r1(3) m have "tts_bodyParsed r1 ''model'' = Some (JString ''gpt'')"
    "tts_bodyParsed r1 ''temperature'' = Some (JNumber 7)"
    by simp_all
  moreover from t pl obtain r2 where r2: "SetOverrideParams no_nested plain_request
      [(''model'', JString ''x''), (''temperature'', JNumber 7)] = Returned (None, r2)"
    "consistent r2"
    "\<forall>k. tts_bodyParsed r2 k =
        (case map_of [(''model'', JString ''x''), (''temperature'', JNumber 7)] k of
           Some v \<Rightarrow> Some v | None \<Rightarrow> tts_bodyParsed plain_request k)"
    by blast
  moreover from r2(3) have "tts_bodyParsed r2 ''model'' = Some (JString ''x'')"
    by simp
  moreover from t pl obtain r3 where "RemoveParamKeys no_nested plain_request [''zzz'']
      = Returned (None, r3)" "consistent r3" "tts_bodyParsed r3 = tts_bodyParsed plain_request"
    by blast
  ultimately show ?thesis using c r1(1,2) by blast
qed

text \<open>
  Where a member name occurs twice, the library's \<^verbatim>\<open>remove\<close> deletes one occurrence of
  the name and the value of all: the member stays, with the value \<^verbatim>\<open>null\<close>.
\<close>

lemma RemoveParamKeys_repeated_name:
  "returned_body (RemoveParamKeys no_nested
       (NewTextToSpeechRequest [(''a'', JNumber 1), (''a'', JNumber 2)]) [''a''])
     = Some (None, Some (JObject [(''a'', JNull)]))"
  by code_simp

text \<open>
  C8 says that \<^verbatim>\<open>SetDefaultParams\<close> adds only keys absent from the parsed body and never
  overwrites an existing key. The code does overwrite one: it looks the raw key up in the
  parsed body, and then patches at the JSON pointer \<^verbatim>\<open>"/" + key\<close>, in which the library
  reads \<^verbatim>\<open>~1\<close> as \<^verbatim>\<open>/\<close>. The body's only member is \<^verbatim>\<open>a/b\<close>, with the value 1; the
  default parameter \<^verbatim>\<open>a~1b\<close> is absent from the parsed body; after
  \<^verbatim>\<open>SetDefaultParams\<close>, which returns no error, the member \<^verbatim>\<open>a/b\<close> has the
  parameter's value 2.
\<close>

theorem C8_escaped_default_overwrites_member:
  "tts_bodyBuffer slash_member_request = Some (JObject [(''a/b'', JNumber 1)])
   \<and> tts_bodyParsed slash_member_request ''a~1b'' = None
   \<and> returned_body (SetDefaultParams no_nested slash_member_request [(''a~1b'', JNumber 2)])
       = Some (None, Some (JObject [(''a/b'', JNumber 2)]))"
  by code_simp

end
